theory Spec2Isabelle
  imports Complex_Main
begin

section \<open>Python values, exceptions and tables\<close>

text \<open>
  The monitoring code builds its reports as Python dictionaries whose values have
  different types, so the model keeps a small universe of Python values. A dictionary is
  an association list in insertion order. A finite Python float is modelled by a real
  number (the code only divides two list lengths and compares the quotient with a
  constant); the float NaN is a value of its own, \<open>VNaN\<close>, and \<open>None\<close> where a float is
  a cell of a column or a result of the two-sample test.
\<close>

datatype pyval =
    VNone
  | VBool bool
  | VInt int
  | VFloat real
  | VNaN
  | VStr string
  | VList "pyval list"
  | VDict "(string \<times> pyval) list"
  | VRef nat

type_synonym pydict = "(string \<times> pyval) list"

text \<open>
  A raised exception: the name of its class and its message. \<open>Exn\<close> is an instance of
  \<open>Exception\<close>, which \<open>except Exception\<close> catches; \<open>BaseExn\<close> is one of the others
  (\<open>KeyboardInterrupt\<close>, \<open>SystemExit\<close>, \<open>GeneratorExit\<close>), which it does not catch.
\<close>

datatype exn =
    Exn (exn_class: string) (exn_msg: string)
  | BaseExn (exn_class: string) (exn_msg: string)

text \<open>A float that may be NaN: \<open>None\<close> is NaN.\<close>

type_synonym pyfloat = "real option"

fun float_val :: "pyfloat \<Rightarrow> pyval" where
  "float_val None = VNaN"
| "float_val (Some x) = VFloat x"

text \<open>\<open>p < x\<close> for a float \<open>p\<close>: every comparison with NaN is false.\<close>

fun float_lt :: "pyfloat \<Rightarrow> real \<Rightarrow> bool" where
  "float_lt None x = False"
| "float_lt (Some y) x = (y < x)"

type_synonym column = "real option list"

type_synonym dataframe = "string \<rightharpoonup> column"

text \<open>\<open>d[k] = v\<close> on a dictionary: an existing key keeps its position.\<close>

fun dict_set :: "pydict \<Rightarrow> string \<Rightarrow> pyval \<Rightarrow> pydict" where
  "dict_set [] k v = [(k, v)]"
| "dict_set ((k', v') # d) k v = (if k' = k then (k, v) # d else (k', v') # dict_set d k v)"

text \<open>\<open>d[k]\<close>: a missing key raises KeyError.\<close>

definition getitem :: "pydict \<Rightarrow> string \<Rightarrow> exn + pyval" where
  "getitem d k = (case map_of d k of None \<Rightarrow> Inl (Exn ''KeyError'' k) | Some v \<Rightarrow> Inr v)"

definition keys :: "pydict \<Rightarrow> string list" where
  "keys d = map fst d"

text \<open>The truth value of an object in a condition.\<close>

fun truthy :: "pyval \<Rightarrow> bool" where
  "truthy VNone = False"
| "truthy (VBool b) = b"
| "truthy (VInt i) = (i \<noteq> 0)"
| "truthy (VFloat x) = (x \<noteq> 0)"
| "truthy VNaN = True"
| "truthy (VStr s) = (s \<noteq> [])"
| "truthy (VList xs) = (xs \<noteq> [])"
| "truthy (VDict d) = (d \<noteq> [])"
| "truthy (VRef a) = True"

text \<open>
  \<open>v > x\<close> for a float \<open>x\<close>: numbers compare by value, NaN is above nothing, anything
  else raises TypeError.
\<close>

fun py_gt :: "pyval \<Rightarrow> real \<Rightarrow> exn + bool" where
  "py_gt (VFloat y) x = Inr (y > x)"
| "py_gt VNaN x = Inr False"
| "py_gt (VInt i) x = Inr (real_of_int i > x)"
| "py_gt (VBool b) x = Inr ((if b then 1 else 0) > x)"
| "py_gt v x = Inl (Exn ''TypeError'' ''not supported between instances'')"

text \<open>\<open>Series.dropna()\<close>: the observations of a column without the missing cells.\<close>

definition dropna :: "column \<Rightarrow> real list" where
  "dropna c = map the (filter (\<lambda>x. x \<noteq> None) c)"

text \<open>\<open>df[cols]\<close> with a list of labels: KeyError when a label is not a column.\<close>

definition select_columns :: "dataframe \<Rightarrow> string list \<Rightarrow> exn + dataframe" where
  "select_columns df cols =
     (case filter (\<lambda>c. df c = None) cols of
        [] \<Rightarrow> Inr (df |` set cols)
      | c # _ \<Rightarrow> Inl (Exn ''KeyError'' c))"

text \<open>\<open>str.lower()\<close> on ASCII letters and the substring test \<open>sub in s\<close>.\<close>

definition lower_char :: "char \<Rightarrow> char" where
  "lower_char c =
     (let n = (of_char c :: nat) in if 65 \<le> n \<and> n \<le> 90 then char_of (n + 32) else c)"

definition lower :: "string \<Rightarrow> string" where
  "lower s = map lower_char s"

fun in_str :: "string \<Rightarrow> string \<Rightarrow> bool" where
  "in_str sub [] = (sub = [])"
| "in_str sub (c # cs) = (take (length sub) (c # cs) = sub \<or> in_str sub cs)"

section \<open>The collaborators of the monitoring code\<close>

text \<open>
  What the code takes from outside the repository is a parameter of the model:
  whether the import of Evidently succeeded, the configured default threshold, the
  metrics Evidently's report yields (or the exception it raises), the two-sample
  Kolmogorov-Smirnov test of SciPy (statistic and p-value, each possibly NaN, or the
  exception it raises),
  the CSV reader, the clock at the two places that read it, and Python's string
  formatting of a value.
\<close>

record evidently_metric =
  metric :: string
  result_drift_detected :: bool

record libs =
  EVIDENTLY_AVAILABLE :: bool
  DRIFT_THRESHOLD :: real
  report_run :: "dataframe \<Rightarrow> dataframe \<Rightarrow> exn + evidently_metric list"
  ks_2samp :: "real list \<Rightarrow> real list \<Rightarrow> exn + pyfloat \<times> pyfloat"
  read_csv :: "string \<Rightarrow> exn + dataframe"
  now_utc :: string
  utcnow :: string
  str :: "pyval \<Rightarrow> string"

section \<open>DriftMonitor\<close>

record DriftMonitor =
  drift_threshold :: real
  drift_detected :: bool
  drift_report :: pydict

text \<open>
  \<open>__init__(self, drift_threshold: float = None)\<close>: the argument is \<open>None\<close> when it is
  not supplied. \<open>drift_threshold or Config.DRIFT_THRESHOLD\<close> takes the right operand
  whenever the left one is falsy, that is \<open>None\<close> or zero.
\<close>

definition DriftMonitor_init :: "libs \<Rightarrow> real option \<Rightarrow> DriftMonitor" where
  "DriftMonitor_init L arg =
     \<lparr> drift_threshold =
         (case arg of
            None \<Rightarrow> DRIFT_THRESHOLD L
          | Some t \<Rightarrow> if t \<noteq> 0 then t else DRIFT_THRESHOLD L),
       drift_detected = False,
       drift_report = [] \<rparr>"

text \<open>The loop of \<open>_simple_drift_detection\<close> over \<open>feature_columns\<close>.\<close>

fun ks_loop ::
  "libs \<Rightarrow> dataframe \<Rightarrow> dataframe \<Rightarrow> string list \<Rightarrow> string list \<Rightarrow> pydict
     \<Rightarrow> exn + string list \<times> pydict" where
  "ks_loop L reference_data current_data [] drifted_features drift_scores =
     Inr (drifted_features, drift_scores)"
| "ks_loop L reference_data current_data (col # cols) drifted_features drift_scores =
     (case reference_data col of
        None \<Rightarrow> ks_loop L reference_data current_data cols drifted_features drift_scores
      | Some rc \<Rightarrow>
         (case current_data col of
            None \<Rightarrow> ks_loop L reference_data current_data cols drifted_features drift_scores
          | Some cc \<Rightarrow>
             (case ks_2samp L (dropna rc) (dropna cc) of
                Inl e \<Rightarrow> Inl e
              | Inr (statistic, p_value) \<Rightarrow>
                  ks_loop L reference_data current_data cols
                    (if float_lt p_value 0.05 then drifted_features @ [col]
                     else drifted_features)
                    (dict_set drift_scores col
                       (VDict [(''statistic'', float_val statistic),
                               (''p_value'', float_val p_value)])))))"

text \<open>\<open>n / len(feature_columns) if feature_columns else 0\<close>: a float, or the integer 0.\<close>

definition share_of :: "nat \<Rightarrow> string list \<Rightarrow> pyval" where
  "share_of n feature_columns =
     (if feature_columns \<noteq> [] then VFloat (real n / real (length feature_columns))
      else VInt 0)"

definition share_gt :: "pyval \<Rightarrow> real \<Rightarrow> bool" where
  "share_gt s t = (case py_gt s t of Inr b \<Rightarrow> b | Inl e \<Rightarrow> False)"

definition simple_drift_detection ::
  "libs \<Rightarrow> DriftMonitor \<Rightarrow> dataframe \<Rightarrow> dataframe \<Rightarrow> string list
     \<Rightarrow> exn + pydict \<times> DriftMonitor" where
  "simple_drift_detection L self reference_data current_data feature_columns =
     (case ks_loop L reference_data current_data feature_columns [] [] of
        Inl e \<Rightarrow> Inl e
      | Inr (drifted_features, drift_scores) \<Rightarrow>
          (let drift_share = share_of (length drifted_features) feature_columns;
               detected = share_gt drift_share (drift_threshold self);
               report =
                 [(''timestamp'', VStr (now_utc L)),
                  (''drift_detected'', VBool detected),
                  (''drift_share'', drift_share),
                  (''n_drifted_features'', VInt (int (length drifted_features))),
                  (''n_features'', VInt (int (length feature_columns))),
                  (''drifted_features'', VList (map VStr drifted_features)),
                  (''drift_scores'', VDict drift_scores),
                  (''threshold'', VFloat (drift_threshold self)),
                  (''method'', VStr ''ks_test'')]
           in Inr (report, self\<lparr>drift_detected := detected, drift_report := report\<rparr>)))"

text \<open>
  The body of the \<open>try\<close> block of \<open>detect_data_drift\<close> up to \<open>report.as_dict()\<close>: the two
  column selections, then Evidently's run.
\<close>

definition evidently_metrics ::
  "libs \<Rightarrow> dataframe \<Rightarrow> dataframe \<Rightarrow> string list \<Rightarrow> exn + evidently_metric list" where
  "evidently_metrics L reference_data current_data feature_columns =
     (case select_columns reference_data feature_columns of
        Inl e \<Rightarrow> Inl e
      | Inr r \<Rightarrow>
         (case select_columns current_data feature_columns of
            Inl e \<Rightarrow> Inl e
          | Inr c \<Rightarrow> report_run L r c))"

definition detect_data_drift ::
  "libs \<Rightarrow> DriftMonitor \<Rightarrow> dataframe \<Rightarrow> dataframe \<Rightarrow> string list
     \<Rightarrow> exn + pydict \<times> DriftMonitor" where
  "detect_data_drift L self reference_data current_data feature_columns =
     (if \<not> EVIDENTLY_AVAILABLE L
      then simple_drift_detection L self reference_data current_data feature_columns
      else
        (case evidently_metrics L reference_data current_data feature_columns of
           Inl (Exn c msg) \<Rightarrow>
             simple_drift_detection L self reference_data current_data feature_columns
         | Inl (BaseExn c msg) \<Rightarrow> Inl (BaseExn c msg)
         | Inr metrics \<Rightarrow>
             (let drift_metrics = filter (\<lambda>m. in_str ''drift'' (lower (metric m))) metrics;
                  n_drifted = length (filter result_drift_detected drift_metrics);
                  drift_share = share_of n_drifted feature_columns;
                  detected = share_gt drift_share (drift_threshold self);
                  report =
                    [(''timestamp'', VStr (now_utc L)),
                     (''drift_detected'', VBool detected),
                     (''drift_share'', drift_share),
                     (''n_drifted_features'', VInt (int n_drifted)),
                     (''n_features'', VInt (int (length feature_columns))),
                     (''threshold'', VFloat (drift_threshold self))]
              in Inr (report, self\<lparr>drift_detected := detected, drift_report := report\<rparr>))))"

section \<open>DriftDetector\<close>

text \<open>
  The alert history \<open>self.alerts\<close> is one list object, created by the constructor and
  extended in place; \<open>check_drift\<close> returns a reference to it. The model keeps list
  objects in a store, so that a reference returned earlier sees later appends.
\<close>

record heap =
  cells :: "nat \<rightharpoonup> pyval list"
  next_ref :: nat

definition new_list :: "heap \<Rightarrow> nat \<times> heap" where
  "new_list H =
     (next_ref H, H\<lparr>cells := (cells H)(next_ref H \<mapsto> []), next_ref := Suc (next_ref H)\<rparr>)"

definition deref :: "heap \<Rightarrow> nat \<Rightarrow> pyval list" where
  "deref H a = (case cells H a of None \<Rightarrow> [] | Some xs \<Rightarrow> xs)"

definition list_append :: "heap \<Rightarrow> nat \<Rightarrow> pyval \<Rightarrow> heap" where
  "list_append H a v = H\<lparr>cells := (cells H)(a \<mapsto> deref H a @ [v])\<rparr>"

record DriftDetector =
  monitor :: DriftMonitor
  alerts :: nat

definition DriftDetector_init :: "libs \<Rightarrow> heap \<Rightarrow> DriftDetector \<times> heap" where
  "DriftDetector_init L H =
     (let (a, H') = new_list H
      in (\<lparr> monitor = DriftMonitor_init L None, alerts = a \<rparr>, H'))"

definition create_alert :: "libs \<Rightarrow> pydict \<Rightarrow> exn + pydict" where
  "create_alert L rpt =
     (case getitem rpt ''drift_share'' of
        Inl e \<Rightarrow> Inl e
      | Inr share \<Rightarrow>
         (case py_gt share 0.3 of
            Inl e \<Rightarrow> Inl e
          | Inr high \<Rightarrow>
             (case getitem rpt ''n_drifted_features'' of
                Inl e \<Rightarrow> Inl e
              | Inr nd \<Rightarrow>
                 (case getitem rpt ''n_features'' of
                    Inl e \<Rightarrow> Inl e
                  | Inr nf \<Rightarrow>
                      Inr [(''timestamp'', VStr (utcnow L)),
                           (''severity'', VStr (if high then ''high'' else ''medium'')),
                           (''type'', VStr ''data_drift''),
                           (''message'',
                              VStr (''Data drift detected! '' @ str L nd @ '' out of ''
                                    @ str L nf @ '' features have drifted.'')),
                           (''details'', VDict rpt),
                           (''action'', VStr ''Model retraining recommended'')]))))"

definition check_drift ::
  "libs \<Rightarrow> DriftDetector \<Rightarrow> heap \<Rightarrow> string \<Rightarrow> string \<Rightarrow> string list
     \<Rightarrow> exn + pydict \<times> DriftDetector \<times> heap" where
  "check_drift L self H reference_data_path current_data_path feature_columns =
     (case read_csv L reference_data_path of
        Inl e \<Rightarrow> Inl e
      | Inr reference_data \<Rightarrow>
     (case read_csv L current_data_path of
        Inl e \<Rightarrow> Inl e
      | Inr current_data \<Rightarrow>
     (case detect_data_drift L (monitor self) reference_data current_data feature_columns of
        Inl e \<Rightarrow> Inl e
      | Inr (rpt, m) \<Rightarrow>
     (case getitem rpt ''drift_detected'' of
        Inl e \<Rightarrow> Inl e
      | Inr detected \<Rightarrow>
          (let result =
                 [(''drift_report'', VDict rpt),
                  (''alerts'', VRef (alerts self)),
                  (''action_required'', detected)]
           in if truthy detected
              then (case create_alert L rpt of
                      Inl e \<Rightarrow> Inl e
                    | Inr alert \<Rightarrow>
                        Inr (result, self\<lparr>monitor := m\<rparr>,
                             list_append H (alerts self) (VDict alert)))
              else Inr (result, self\<lparr>monitor := m\<rparr>, H))))))"


section \<open>The retraining DAG\<close>

subsection \<open>The tasks and their callables\<close>

datatype task =
    task_collect | task_drift | task_branch | task_retrain | task_evaluate
  | task_deploy | task_alert | task_skip | task_end

fun task_id :: "task \<Rightarrow> string" where
  "task_id task_collect = ''collect_recent_data''"
| "task_id task_drift = ''detect_drift''"
| "task_id task_branch = ''check_drift_decision''"
| "task_id task_retrain = ''trigger_retrain''"
| "task_id task_evaluate = ''evaluate_new_model''"
| "task_id task_deploy = ''deploy_to_staging''"
| "task_id task_alert = ''send_drift_alert''"
| "task_id task_skip = ''skip_retrain''"
| "task_id task_end = ''end''"

datatype operator = PythonOperator | BranchPythonOperator | DummyOperator

fun operator_of :: "task \<Rightarrow> operator" where
  "operator_of task_branch = BranchPythonOperator"
| "operator_of task_skip = DummyOperator"
| "operator_of task_end = DummyOperator"
| "operator_of t = PythonOperator"

datatype trigger_rule = all_success | none_failed_min_one_success

fun trigger_rule_of :: "task \<Rightarrow> trigger_rule" where
  "trigger_rule_of task_end = none_failed_min_one_success"
| "trigger_rule_of t = all_success"

text \<open>The three chains of \<open>>>\<close> at the end of the file.\<close>

definition edges :: "(task \<times> task) list" where
  "edges =
     [(task_collect, task_drift), (task_drift, task_branch),
      (task_branch, task_retrain), (task_retrain, task_evaluate),
      (task_evaluate, task_deploy), (task_deploy, task_alert), (task_alert, task_end),
      (task_branch, task_skip), (task_skip, task_end)]"

definition upstream :: "task \<Rightarrow> task list" where
  "upstream t = map fst (filter (\<lambda>e. snd e = t) edges)"

definition downstream :: "task \<Rightarrow> task list" where
  "downstream t = map snd (filter (\<lambda>e. fst e = t) edges)"

text \<open>
  What a task's callable meets outside the DAG file: the monitoring library's own
  collaborators, the data generator, the file system, the preprocessing and feature
  engineering of the repository (the features table and the feature names, or an
  exception), the report writer, Airflow's \<open>trigger_dag\<close> (it returns, or raises one of
  Airflow's errors, an instance of \<open>Exception\<close>, given by its message), the evaluation
  script and the copy of the model file.
\<close>

record world =
  lib :: libs
  reference_path :: string
  generate_and_save :: "exn + string"
  path_exists :: "string \<Rightarrow> bool"
  engineer_features :: "dataframe \<Rightarrow> exn + dataframe \<times> string list"
  save_drift_report :: "pydict \<Rightarrow> exn + unit"
  trigger_dag :: "string + unit"
  evaluate_main :: "exn + unit"
  copy_model :: "exn + unit"

text \<open>XCom: values by task id and key; a pull of a missing entry gives \<open>None\<close>.\<close>

type_synonym xcom = "string \<times> string \<rightharpoonup> pyval"

definition xcom_pull :: "xcom \<Rightarrow> string \<Rightarrow> string \<Rightarrow> pyval" where
  "xcom_pull X tid key = (case X (tid, key) of None \<Rightarrow> VNone | Some v \<Rightarrow> v)"

text \<open>
  What is observed of a run: each start of a task's callable or of a dummy task, and
  each call of \<open>DriftMonitor.detect_data_drift\<close>.
\<close>

datatype event = Started task | Engine_called

text \<open>
  A callable yields the events of its execution and either the exception that ended
  it or its return value with the entries it pushed to XCom.
\<close>

type_synonym outcome = "event list \<times> (exn + pyval \<times> (string \<times> pyval) list)"

definition collect_recent_data :: "world \<Rightarrow> outcome" where
  "collect_recent_data W =
     ([], case generate_and_save W of Inl e \<Rightarrow> Inl e | Inr output_path \<Rightarrow> Inr (VStr output_path, []))"

definition detect_drift :: "world \<Rightarrow> xcom \<Rightarrow> outcome" where
  "detect_drift W X =
     (let recent_data_path = xcom_pull X ''collect_recent_data'' ''return_value''
      in if \<not> path_exists W (reference_path W) then ([], Inr (VBool False, []))
         else
          (case read_csv (lib W) (reference_path W) of
             Inl e \<Rightarrow> ([], Inl e)
           | Inr reference_data \<Rightarrow>
          (case (case recent_data_path of
                   VStr p \<Rightarrow> read_csv (lib W) p
                 | _ \<Rightarrow> Inl (Exn ''ValueError'' ''Invalid file path or buffer object type'')) of
             Inl e \<Rightarrow> ([], Inl e)
           | Inr recent_data \<Rightarrow>
          (case engineer_features W recent_data of
             Inl e \<Rightarrow> ([], Inl e)
           | Inr (recent_data_features, feature_names) \<Rightarrow>
          (case detect_data_drift (lib W) (DriftMonitor_init (lib W) None)
                  reference_data recent_data_features feature_names of
             Inl e \<Rightarrow> ([Engine_called], Inl e)
           | Inr (rpt, mon) \<Rightarrow>
          (case save_drift_report W (drift_report mon) of
             Inl e \<Rightarrow> ([Engine_called], Inl e)
           | Inr u \<Rightarrow>
          (case getitem rpt ''drift_detected'' of
             Inl e \<Rightarrow> ([Engine_called], Inl e)
           | Inr detected \<Rightarrow>
          (case getitem rpt ''drift_share'' of
             Inl e \<Rightarrow> ([Engine_called], Inl e)
           | Inr share \<Rightarrow>
               ([Engine_called],
                Inr (detected, [(''drift_detected'', detected), (''drift_share'', share)]))))))))))"

definition check_drift_decision :: "xcom \<Rightarrow> string" where
  "check_drift_decision X =
     (let detected = xcom_pull X ''detect_drift'' ''drift_detected''
      in if truthy detected then ''trigger_retrain'' else ''skip_retrain'')"

text \<open>\<open>trigger_retrain\<close> catches the exception of \<open>trigger_dag\<close> and returns.\<close>

definition trigger_retrain :: "world \<Rightarrow> outcome" where
  "trigger_retrain W =
     ([], case trigger_dag W of Inl e \<Rightarrow> Inr (VNone, []) | Inr u \<Rightarrow> Inr (VNone, []))"

definition evaluate_new_model :: "world \<Rightarrow> outcome" where
  "evaluate_new_model W =
     ([], case evaluate_main W of Inl e \<Rightarrow> Inl e | Inr u \<Rightarrow> Inr (VNone, []))"

definition deploy_to_staging :: "world \<Rightarrow> outcome" where
  "deploy_to_staging W =
     ([], case copy_model W of Inl e \<Rightarrow> Inl e | Inr u \<Rightarrow> Inr (VNone, []))"

text \<open>
  \<open>send_drift_alert\<close> formats the pulled share with \<open>:.2%\<close>, which raises for a value
  that is not a number.
\<close>

definition send_drift_alert :: "xcom \<Rightarrow> outcome" where
  "send_drift_alert X =
     (let share = xcom_pull X ''detect_drift'' ''drift_share''
      in ([], case share of
                VFloat x \<Rightarrow> Inr (VNone, [])
              | VNaN \<Rightarrow> Inr (VNone, [])
              | VInt i \<Rightarrow> Inr (VNone, [])
              | VBool b \<Rightarrow> Inr (VNone, [])
              | VStr s \<Rightarrow> Inl (Exn ''ValueError'' ''Unknown format code'')
              | _ \<Rightarrow> Inl (Exn ''TypeError'' ''unsupported format string'')))"

fun python_callable :: "task \<Rightarrow> world \<Rightarrow> xcom \<Rightarrow> outcome" where
  "python_callable task_collect W X = collect_recent_data W"
| "python_callable task_drift W X = detect_drift W X"
| "python_callable task_branch W X = ([], Inr (VStr (check_drift_decision X), []))"
| "python_callable task_retrain W X = trigger_retrain W"
| "python_callable task_evaluate W X = evaluate_new_model W"
| "python_callable task_deploy W X = deploy_to_staging W"
| "python_callable task_alert W X = send_drift_alert X"
| "python_callable t W X = ([], Inr (VNone, []))"

subsection \<open>The scheduler's rules\<close>

text \<open>
  The DAG file leaves the execution to Airflow. The part of Airflow that the file
  relies on is modelled as its documentation describes it: a task runs once all its
  upstream tasks are finished and its trigger rule holds; under \<open>all_success\<close> a failed
  upstream task makes it \<open>upstream_failed\<close> and a skipped one makes it \<open>skipped\<close>; under
  \<open>none_failed_min_one_success\<close> it runs when no upstream task failed and at least one
  succeeded, and is skipped when all were skipped; a branch operator follows the
  directly downstream task whose id its callable returned and marks the others skipped;
  a callable that raises is tried again, \<open>retries\<close> times, before the task is failed; a
  return value other than \<open>None\<close> is pushed to XCom under \<open>return_value\<close>.
\<close>

datatype task_state = Success | Failed | Skipped | Upstream_failed

record dag_run =
  state :: "task \<rightharpoonup> task_state"
  xcoms :: xcom
  log :: "event list"

definition retries :: nat where
  "retries = 1"

definition rule_verdict :: "trigger_rule \<Rightarrow> task_state option list \<Rightarrow> task_state option" where
  "rule_verdict r ups =
     (if Some Failed \<in> set ups \<or> Some Upstream_failed \<in> set ups then Some Upstream_failed
      else (case r of
              all_success \<Rightarrow> if Some Skipped \<in> set ups then Some Skipped else None
            | none_failed_min_one_success \<Rightarrow>
                if Some Success \<notin> set ups then Some Skipped else None))"

text \<open>
  The tries of one task: \<open>Wt n\<close> is the world its \<open>n\<close>-th try meets, \<open>left\<close> the number of
  retries that remain.
\<close>

fun attempt :: "(nat \<Rightarrow> world) \<Rightarrow> task \<Rightarrow> xcom \<Rightarrow> nat \<Rightarrow> nat \<Rightarrow> outcome" where
  "attempt Wt t X n 0 =
     (let (ev, r) = python_callable t (Wt n) X in (Started t # ev, r))"
| "attempt Wt t X n (Suc left) =
     (let (ev, r) = python_callable t (Wt n) X
      in (case r of
            Inr v \<Rightarrow> (Started t # ev, r)
          | Inl e \<Rightarrow>
              (let (ev', r') = attempt Wt t X (Suc n) left
               in (Started t # ev @ ev', r'))))"

definition push_all :: "xcom \<Rightarrow> task \<Rightarrow> pyval \<Rightarrow> (string \<times> pyval) list \<Rightarrow> xcom" where
  "push_all X t v pushes =
     (let X' = fold (\<lambda>(k, w) Y. Y((task_id t, k) \<mapsto> w)) pushes X
      in if v = VNone then X' else X'((task_id t, ''return_value'') \<mapsto> v))"

definition skip_all_except :: "(task \<rightharpoonup> task_state) \<Rightarrow> task list \<Rightarrow> string \<Rightarrow> (task \<rightharpoonup> task_state)" where
  "skip_all_except st ds branch =
     fold (\<lambda>d s. if task_id d = branch then s else s(d \<mapsto> Skipped)) ds st"

definition execute :: "(task \<Rightarrow> nat \<Rightarrow> world) \<Rightarrow> dag_run \<Rightarrow> task \<Rightarrow> dag_run" where
  "execute W R t =
     (case operator_of t of
        DummyOperator \<Rightarrow>
          R\<lparr>state := (state R)(t \<mapsto> Success), log := log R @ [Started t]\<rparr>
      | PythonOperator \<Rightarrow>
          (let (ev, r) = attempt (W t) t (xcoms R) 1 retries
           in (case r of
                 Inl e \<Rightarrow> R\<lparr>state := (state R)(t \<mapsto> Failed), log := log R @ ev\<rparr>
               | Inr (v, pushes) \<Rightarrow>
                   R\<lparr>state := (state R)(t \<mapsto> Success),
                     xcoms := push_all (xcoms R) t v pushes,
                     log := log R @ ev\<rparr>))
      | BranchPythonOperator \<Rightarrow>
          (let (ev, r) = attempt (W t) t (xcoms R) 1 retries
           in (case r of
                 Inl e \<Rightarrow> R\<lparr>state := (state R)(t \<mapsto> Failed), log := log R @ ev\<rparr>
               | Inr (v, pushes) \<Rightarrow>
                   (case v of
                      VStr branch \<Rightarrow>
                        if branch \<in> set (map task_id (downstream t))
                        then R\<lparr>state :=
                                 skip_all_except ((state R)(t \<mapsto> Success)) (downstream t) branch,
                               xcoms := push_all (xcoms R) t v pushes,
                               log := log R @ ev\<rparr>
                        else R\<lparr>state := (state R)(t \<mapsto> Failed), log := log R @ ev\<rparr>
                    | _ \<Rightarrow> R\<lparr>state := (state R)(t \<mapsto> Failed), log := log R @ ev\<rparr>))))"

definition run_task :: "(task \<Rightarrow> nat \<Rightarrow> world) \<Rightarrow> dag_run \<Rightarrow> task \<Rightarrow> dag_run" where
  "run_task W R t =
     (case state R t of
        Some s \<Rightarrow> R
      | None \<Rightarrow>
         (case rule_verdict (trigger_rule_of t) (map (state R) (upstream t)) of
            Some s \<Rightarrow> R\<lparr>state := (state R)(t \<mapsto> s)\<rparr>
          | None \<Rightarrow> execute W R t))"

definition topological_order :: "task list" where
  "topological_order =
     [task_collect, task_drift, task_branch, task_retrain, task_evaluate,
      task_deploy, task_alert, task_skip, task_end]"

definition run_dag :: "(task \<Rightarrow> nat \<Rightarrow> world) \<Rightarrow> dag_run" where
  "run_dag W =
     foldl (run_task W) \<lparr>state = Map.empty, xcoms = Map.empty, log = []\<rparr> topological_order"

section \<open>Example inputs\<close>

text \<open>Python's \<open>str\<close> of an integer.\<close>

fun digits :: "nat \<Rightarrow> string" where
  "digits n = (if n < 10 then [char_of (48 + n)] else digits (n div 10) @ [char_of (48 + n mod 10)])"

definition str_int :: "int \<Rightarrow> string" where
  "str_int i = (if i < 0 then CHR ''-'' # digits (nat (- i)) else digits (nat i))"

definition ex_str :: "pyval \<Rightarrow> string" where
  "ex_str v = (case v of VInt i \<Rightarrow> str_int i | VStr s \<Rightarrow> s | _ \<Rightarrow> [])"

text \<open>
  A comparator for the examples. It gives what SciPy's exact two-sample test gives on
  the samples the examples use: statistic 0 and p-value 1 on two equal samples,
  statistic 1 and p-value 2/70 on two separated samples of four observations each; on
  an empty sample it raises ValueError, as \<open>ks_2samp\<close> did when the repository was written.
\<close>

definition ex_ks_2samp :: "real list \<Rightarrow> real list \<Rightarrow> exn + pyfloat \<times> pyfloat" where
  "ex_ks_2samp xs ys =
     (if xs = [] \<or> ys = []
      then Inl (Exn ''ValueError'' ''Data passed to ks_2samp must not be empty'')
      else if xs = ys then Inr (Some 0, Some 1) else Inr (Some 1, Some (2 / 70)))"

text \<open>
  The same comparator as a later SciPy has it: on an empty sample it returns NaN for
  the statistic and for the p-value instead of raising.
\<close>

definition ex_ks_2samp_nan :: "real list \<Rightarrow> real list \<Rightarrow> exn + pyfloat \<times> pyfloat" where
  "ex_ks_2samp_nan xs ys =
     (if xs = [] \<or> ys = [] then Inr (None, None)
      else if xs = ys then Inr (Some 0, Some 1) else Inr (Some 1, Some (2 / 70)))"

definition ex_reference :: dataframe where
  "ex_reference =
     [''a'' \<mapsto> [Some 1, Some 2, Some 3, Some 4],
      ''b'' \<mapsto> [Some 1, Some 2, Some 3, Some 4],
      ''c'' \<mapsto> [Some 5, None, Some 6]]"

definition ex_current :: dataframe where
  "ex_current =
     [''a'' \<mapsto> [Some 11, Some 12, Some 13, Some 14],
      ''b'' \<mapsto> [Some 1, Some 2, Some 3, Some 4]]"

definition ex_read_csv :: "string \<Rightarrow> exn + dataframe" where
  "ex_read_csv p =
     (if p = ''train_features.csv'' then Inr ex_reference
      else if p = ''recent.csv'' then Inr ex_current
      else Inl (Exn ''FileNotFoundError'' p))"

text \<open>Evidently is not installed.\<close>

definition ex_libs :: libs where
  "ex_libs =
     \<lparr> EVIDENTLY_AVAILABLE = False,
       DRIFT_THRESHOLD = 0.1,
       report_run = (\<lambda>r c. Inl (Exn ''NameError'' ''Report'')),
       ks_2samp = ex_ks_2samp,
       read_csv = ex_read_csv,
       now_utc = ''2024-05-01T06:00:00+00:00'',
       utcnow = ''2024-05-01T06:00:00'',
       str = ex_str \<rparr>"

text \<open>Evidently is installed and reports one drifted column out of two.\<close>

definition ex_libs_evidently :: libs where
  "ex_libs_evidently =
     ex_libs\<lparr> EVIDENTLY_AVAILABLE := True,
              report_run := (\<lambda>r c.
                Inr [\<lparr>metric = ''DatasetDriftMetric'', result_drift_detected = True\<rparr>,
                     \<lparr>metric = ''DatasetSummaryMetric'', result_drift_detected = False\<rparr>]) \<rparr>"

text \<open>
  The feature list of the examples: \<open>c\<close> is a column of the reference table only. The
  fallback strategy finds \<open>a\<close> drifted and \<open>b\<close> unchanged.
\<close>

definition ex_features :: "string list" where
  "ex_features = [''a'', ''b'', ''c'']"

definition ex_report :: pydict where
  "ex_report =
     [(''timestamp'', VStr ''2024-05-01T06:00:00+00:00''),
      (''drift_detected'', VBool True),
      (''drift_share'', VFloat (1 / 3)),
      (''n_drifted_features'', VInt 1),
      (''n_features'', VInt 3),
      (''drifted_features'', VList [VStr ''a'']),
      (''drift_scores'',
         VDict [(''a'', VDict [(''statistic'', VFloat 1), (''p_value'', VFloat (1 / 35))]),
                (''b'', VDict [(''statistic'', VFloat 0), (''p_value'', VFloat 1)])]),
      (''threshold'', VFloat (1 / 10)),
      (''method'', VStr ''ks_test'')]"

definition ex_monitor :: DriftMonitor where
  "ex_monitor = \<lparr> drift_threshold = 1 / 10, drift_detected = True, drift_report = ex_report \<rparr>"

definition ex_report_advanced :: pydict where
  "ex_report_advanced =
     [(''timestamp'', VStr ''2024-05-01T06:00:00+00:00''),
      (''drift_detected'', VBool True),
      (''drift_share'', VFloat (1 / 2)),
      (''n_drifted_features'', VInt 1),
      (''n_features'', VInt 2),
      (''threshold'', VFloat (1 / 10))]"

definition ex_monitor_advanced :: DriftMonitor where
  "ex_monitor_advanced =
     \<lparr> drift_threshold = 1 / 10, drift_detected = True, drift_report = ex_report_advanced \<rparr>"

text \<open>A feature whose reference column holds missing cells only.\<close>

definition ex_empty_reference :: dataframe where
  "ex_empty_reference = [''d'' \<mapsto> [None, None]]"

definition ex_empty_current :: dataframe where
  "ex_empty_current = [''d'' \<mapsto> [Some 1, Some 2]]"

definition ex_report_empty :: pydict where
  "ex_report_empty =
     [(''timestamp'', VStr ''2024-05-01T06:00:00+00:00''),
      (''drift_detected'', VBool False),
      (''drift_share'', VFloat 0),
      (''n_drifted_features'', VInt 0),
      (''n_features'', VInt 1),
      (''drifted_features'', VList []),
      (''drift_scores'', VDict [(''d'', VDict [(''statistic'', VNaN), (''p_value'', VNaN)])]),
      (''threshold'', VFloat (1 / 10)),
      (''method'', VStr ''ks_test'')]"

text \<open>Evidently is installed and its run is interrupted from the keyboard.\<close>

definition ex_libs_interrupted :: libs where
  "ex_libs_interrupted =
     ex_libs\<lparr> EVIDENTLY_AVAILABLE := True,
              report_run := (\<lambda>r c. Inl (BaseExn ''KeyboardInterrupt'' [])) \<rparr>"

text \<open>
  Ten features, of which the first three have drifted: a drift share of exactly 0.3.
\<close>

definition ex_features10 :: "string list" where
  "ex_features10 =
     [''f0'', ''f1'', ''f2'', ''f3'', ''f4'', ''f5'', ''f6'', ''f7'', ''f8'', ''f9'']"

definition ex_reference10 :: dataframe where
  "ex_reference10 c =
     (if c \<in> set ex_features10 then Some [Some 1, Some 2, Some 3, Some 4] else None)"

definition ex_current10 :: dataframe where
  "ex_current10 c =
     (if c \<in> set [''f0'', ''f1'', ''f2''] then Some [Some 11, Some 12, Some 13, Some 14]
      else if c \<in> set ex_features10 then Some [Some 1, Some 2, Some 3, Some 4]
      else None)"

definition ex_libs10 :: libs where
  "ex_libs10 =
     ex_libs\<lparr> read_csv := (\<lambda>p.
       if p = ''train10.csv'' then Inr ex_reference10
       else if p = ''recent10.csv'' then Inr ex_current10
       else Inl (Exn ''FileNotFoundError'' p)) \<rparr>"

text \<open>
  A detector on an empty store, and three calls on it: recent data with a drifted
  feature, the training data compared with itself, and the recent data again.
\<close>

definition ex_heap :: heap where
  "ex_heap = \<lparr> cells = Map.empty, next_ref = 0 \<rparr>"

definition ex_detector :: DriftDetector where
  "ex_detector = fst (DriftDetector_init ex_libs ex_heap)"

definition ex_heap_init :: heap where
  "ex_heap_init = snd (DriftDetector_init ex_libs ex_heap)"




text \<open>
  Three runs of the DAG, the same at every try of every task: recent data with a
  drifted feature, recent data equal to the training data, and a run without the
  reference file. Preprocessing and feature engineering are the identity here.
\<close>

definition ex_world :: world where
  "ex_world =
     \<lparr> lib = ex_libs,
       reference_path = ''train_features.csv'',
       generate_and_save = Inr ''recent.csv'',
       path_exists = (\<lambda>p. p = ''train_features.csv'' \<or> p = ''recent.csv''),
       engineer_features = (\<lambda>d. Inr (d, ex_features)),
       save_drift_report = (\<lambda>r. Inr ()),
       trigger_dag = Inr (),
       evaluate_main = Inr (),
       copy_model = Inr () \<rparr>"

definition ex_dag_drift :: "task \<Rightarrow> nat \<Rightarrow> world" where
  "ex_dag_drift t n = ex_world"

definition ex_dag_no_drift :: "task \<Rightarrow> nat \<Rightarrow> world" where
  "ex_dag_no_drift t n = ex_world\<lparr>generate_and_save := Inr ''train_features.csv''\<rparr>"

definition ex_dag_no_reference :: "task \<Rightarrow> nat \<Rightarrow> world" where
  "ex_dag_no_reference t n = ex_world\<lparr>path_exists := (\<lambda>p. p = ''recent.csv'')\<rparr>"

section \<open>Vocabulary of the properties\<close>

text \<open>
  A feature is present when it is a column of both tables; \<open>compare\<close> is the two-sample
  test on its two columns after the removal of missing cells; a present feature has
  drifted when the test returns a p-value that is a number below 0.05; \<open>score\<close> is the
  entry the fallback strategy records for it; \<open>dict_of\<close> reads a dictionary value.
\<close>

definition present :: "dataframe \<Rightarrow> dataframe \<Rightarrow> string \<Rightarrow> bool" where
  "present reference_data current_data c =
     (reference_data c \<noteq> None \<and> current_data c \<noteq> None)"

definition compare ::
  "libs \<Rightarrow> dataframe \<Rightarrow> dataframe \<Rightarrow> string \<Rightarrow> exn + pyfloat \<times> pyfloat" where
  "compare L reference_data current_data c =
     ks_2samp L (dropna (the (reference_data c))) (dropna (the (current_data c)))"

definition drifted :: "libs \<Rightarrow> dataframe \<Rightarrow> dataframe \<Rightarrow> string \<Rightarrow> bool" where
  "drifted L reference_data current_data c =
     (present reference_data current_data c \<and>
      (case compare L reference_data current_data c of
         Inl e \<Rightarrow> False
       | Inr (statistic, p_value) \<Rightarrow>
           (case p_value of None \<Rightarrow> False | Some p \<Rightarrow> p < 0.05)))"

definition score :: "libs \<Rightarrow> dataframe \<Rightarrow> dataframe \<Rightarrow> string \<Rightarrow> pyval" where
  "score L reference_data current_data c =
     (case compare L reference_data current_data c of
        Inl e \<Rightarrow> VNone
      | Inr (statistic, p_value) \<Rightarrow>
          VDict [(''statistic'', float_val statistic), (''p_value'', float_val p_value)])"

definition dict_of :: "pyval \<Rightarrow> pydict" where
  "dict_of v = (case v of VDict d \<Rightarrow> d | _ \<Rightarrow> [])"

text \<open>The number of drifted features the advanced strategy reads off Evidently's metrics.\<close>

definition n_advanced :: "evidently_metric list \<Rightarrow> nat" where
  "n_advanced ms =
     length (filter result_drift_detected
               (filter (\<lambda>m. in_str ''drift'' (lower (metric m))) ms))"

text \<open>The run after the tasks \<open>ts\<close>, a prefix of the topological order.\<close>

definition run_prefix :: "(task \<Rightarrow> nat \<Rightarrow> world) \<Rightarrow> task list \<Rightarrow> dag_run" where
  "run_prefix W ts = foldl (run_task W) \<lparr>state = Map.empty, xcoms = Map.empty, log = []\<rparr> ts"

section \<open>Properties of the drift monitor\<close>

subsection \<open>The comparison loop\<close>

lemma map_of_dict_set: "map_of (dict_set d k v) = (map_of d)(k \<mapsto> v)"
  by (induction d k v rule: dict_set.induct) auto

lemma ks_loop_Inr:
  "ks_loop L r c cols dr sc = Inr (dr', sc') \<Longrightarrow>
     dr' = dr @ filter (drifted L r c) cols \<and>
     (\<forall>k. map_of sc' k =
            (if k \<in> set cols \<and> present r c k then Some (score L r c k) else map_of sc k)) \<and>
     (\<forall>k \<in> set cols. present r c k \<longrightarrow> (\<exists>s p. compare L r c k = Inr (s, p)))"
proof (induction cols arbitrary: dr sc)
  case Nil
  then show ?case by simp
next
  case (Cons col cols)
  show ?case
  proof (cases "present r c col")
    case False
    then have "ks_loop L r c (col # cols) dr sc = ks_loop L r c cols dr sc"
      by (auto simp: present_def split: option.splits)
    with Cons.prems have "ks_loop L r c cols dr sc = Inr (dr', sc')" by simp
    from Cons.IH[OF this] False show ?thesis
      by (auto simp: drifted_def)
  next
    case True
    then obtain rc cc where rc: "r col = Some rc" and cc: "c col = Some cc"
      by (auto simp: present_def)
    with Cons.prems obtain s p where sp: "ks_2samp L (dropna rc) (dropna cc) = Inr (s, p)"
      by (cases "ks_2samp L (dropna rc) (dropna cc)") auto
    have cmp: "compare L r c col = Inr (s, p)"
      using rc cc sp by (simp add: compare_def)
    let ?dr = "if float_lt p 0.05 then dr @ [col] else dr"
    let ?sc = "dict_set sc col (VDict [(''statistic'', float_val s), (''p_value'', float_val p)])"
    from Cons.prems rc cc sp have "ks_loop L r c cols ?dr ?sc = Inr (dr', sc')"
      by simp
    from Cons.IH[OF this] True cmp show ?thesis
      by (cases p) (auto simp: drifted_def score_def map_of_dict_set)
  qed
qed

lemma ks_loop_Inl:
  "ks_loop L r c cols dr sc = Inl e \<Longrightarrow>
     \<exists>k \<in> set cols. present r c k \<and> compare L r c k = Inl e"
proof (induction cols arbitrary: dr sc)
  case Nil
  then show ?case by simp
next
  case (Cons col cols)
  then show ?case
    by (auto simp: present_def compare_def split: option.splits sum.splits prod.splits)
qed

lemma py_gt_share_of:
  "py_gt (share_of n cols) t = Inr (share_gt (share_of n cols) t)"
  by (simp add: share_of_def share_gt_def)

subsection \<open>The two strategies\<close>

lemma simple_drift_detection_Inr:
  assumes "simple_drift_detection L self r c cols = Inr (rpt, m)"
  shows "\<exists>sc. (\<forall>k. map_of sc k = (if k \<in> set cols \<and> present r c k then Some (score L r c k) else None)) \<and>
           (\<forall>k \<in> set cols. present r c k \<longrightarrow> (\<exists>s p. compare L r c k = Inr (s, p))) \<and>
           rpt = [(''timestamp'', VStr (now_utc L)),
                  (''drift_detected'',
                     VBool (share_gt (share_of (length (filter (drifted L r c) cols)) cols) (drift_threshold self))),
                  (''drift_share'', share_of (length (filter (drifted L r c) cols)) cols),
                  (''n_drifted_features'', VInt (int (length (filter (drifted L r c) cols)))),
                  (''n_features'', VInt (int (length cols))),
                  (''drifted_features'', VList (map VStr (filter (drifted L r c) cols))),
                  (''drift_scores'', VDict sc),
                  (''threshold'', VFloat (drift_threshold self)),
                  (''method'', VStr ''ks_test'')] \<and>
           m = self\<lparr>drift_detected :=
                      share_gt (share_of (length (filter (drifted L r c) cols)) cols) (drift_threshold self),
                    drift_report := rpt\<rparr>"
proof -
  from assms obtain dr sc where loop: "ks_loop L r c cols [] [] = Inr (dr, sc)"
    by (auto simp: simple_drift_detection_def split: sum.splits)
  from ks_loop_Inr[OF loop] have dr: "dr = filter (drifted L r c) cols"
    and sc: "\<forall>k. map_of sc k = (if k \<in> set cols \<and> present r c k then Some (score L r c k) else None)"
    and ok: "\<forall>k \<in> set cols. present r c k \<longrightarrow> (\<exists>s p. compare L r c k = Inr (s, p))"
    by auto
  from assms loop dr have "rpt = [(''timestamp'', VStr (now_utc L)),
                  (''drift_detected'',
                     VBool (share_gt (share_of (length (filter (drifted L r c) cols)) cols) (drift_threshold self))),
                  (''drift_share'', share_of (length (filter (drifted L r c) cols)) cols),
                  (''n_drifted_features'', VInt (int (length (filter (drifted L r c) cols)))),
                  (''n_features'', VInt (int (length cols))),
                  (''drifted_features'', VList (map VStr (filter (drifted L r c) cols))),
                  (''drift_scores'', VDict sc),
                  (''threshold'', VFloat (drift_threshold self)),
                  (''method'', VStr ''ks_test'')] \<and>
           m = self\<lparr>drift_detected :=
                      share_gt (share_of (length (filter (drifted L r c) cols)) cols) (drift_threshold self),
                    drift_report := rpt\<rparr>"
    by (auto simp: simple_drift_detection_def Let_def)
  with sc ok show ?thesis by blast
qed

lemma simple_drift_detection_Inl:
  "simple_drift_detection L self r c cols = Inl e \<Longrightarrow>
     \<exists>k \<in> set cols. present r c k \<and> compare L r c k = Inl e"
  by (auto simp: simple_drift_detection_def Let_def split: sum.splits dest: ks_loop_Inl)

lemma detect_data_drift_cases:
  assumes "detect_data_drift L self r c cols = Inr (rpt, m)"
  shows "simple_drift_detection L self r c cols = Inr (rpt, m) \<or>
         (EVIDENTLY_AVAILABLE L \<and>
          (\<exists>ms. evidently_metrics L r c cols = Inr ms \<and>
             rpt = [(''timestamp'', VStr (now_utc L)),
                    (''drift_detected'', VBool (share_gt (share_of (n_advanced ms) cols) (drift_threshold self))),
                    (''drift_share'', share_of (n_advanced ms) cols),
                    (''n_drifted_features'', VInt (int (n_advanced ms))),
                    (''n_features'', VInt (int (length cols))),
                    (''threshold'', VFloat (drift_threshold self))] \<and>
             m = self\<lparr>drift_detected := share_gt (share_of (n_advanced ms) cols) (drift_threshold self),
                      drift_report := rpt\<rparr>))"
  using assms
  by (auto simp: detect_data_drift_def Let_def n_advanced_def
           split: if_splits sum.splits exn.splits)


subsection \<open>The examples, evaluated\<close>

lemma ex_detect:
  "detect_data_drift ex_libs (DriftMonitor_init ex_libs None) ex_reference ex_current ex_features
     = Inr (ex_report, ex_monitor)"
  by code_simp

lemma ex_simple:
  "simple_drift_detection ex_libs (DriftMonitor_init ex_libs None) ex_reference ex_current
     ex_features = Inr (ex_report, ex_monitor)"
  by code_simp

lemma ex_detect_advanced:
  "detect_data_drift ex_libs_evidently (DriftMonitor_init ex_libs_evidently None)
     ex_reference ex_current [''a'', ''b''] = Inr (ex_report_advanced, ex_monitor_advanced)"
  by code_simp

lemma ex_metrics_raise:
  "evidently_metrics ex_libs_evidently ex_reference ex_current ex_features
     = Inl (Exn ''KeyError'' ''c'')"
  by code_simp

lemma ex_metrics_ok:
  "\<not> isl (evidently_metrics ex_libs_evidently ex_reference ex_current [''a'', ''b''])"
  by code_simp

lemma ex_empty_raises:
  "simple_drift_detection ex_libs (DriftMonitor_init ex_libs None)
     ex_empty_reference ex_empty_current [''d'']
     = Inl (Exn ''ValueError'' ''Data passed to ks_2samp must not be empty'')"
  by code_simp

lemma ex_empty_nan:
  "simple_drift_detection (ex_libs\<lparr>ks_2samp := ex_ks_2samp_nan\<rparr>)
     (DriftMonitor_init ex_libs None) ex_empty_reference ex_empty_current [''d'']
     = Inr (ex_report_empty,
            \<lparr> drift_threshold = 1 / 10, drift_detected = False, drift_report = ex_report_empty \<rparr>)"
  by code_simp

lemma ex_metrics_interrupted:
  "evidently_metrics ex_libs_interrupted ex_reference ex_current [''a'', ''b'']
     = Inl (BaseExn ''KeyboardInterrupt'' [])"
  by code_simp

lemma ex_threshold: "drift_threshold (DriftMonitor_init ex_libs None) = 1 / 10"
  by (simp add: DriftMonitor_init_def ex_libs_def)

subsection \<open>Threshold of an instance\<close>

lemma DriftMonitor_init_nonzero:
  "t \<noteq> 0 \<Longrightarrow> drift_threshold (DriftMonitor_init L (Some t)) = t"
  by (simp add: DriftMonitor_init_def)

text \<open>
  C6. A threshold passed to the constructor is meant to override the configured default.
  With the default 0.1 and the argument 0.0 the instance's threshold is 0.1: the
  expression \<open>drift_threshold or Config.DRIFT_THRESHOLD\<close> discards a zero.
\<close>

theorem zero_threshold_replaced_by_default:
  "DRIFT_THRESHOLD ex_libs = 0.1 \<and>
   drift_threshold (DriftMonitor_init ex_libs (Some 0)) = 0.1"
  by (simp add: DriftMonitor_init_def ex_libs_def)

subsection \<open>The number of features and the drift share\<close>




subsection \<open>The verdict\<close>

text \<open>
  C2. In every report of \<open>detect_data_drift\<close>, from either strategy, \<open>drift_detected\<close> is
  true exactly when \<open>drift_share\<close> is strictly greater than the threshold, where the
  threshold is the one of the instance at the call and is the report's \<open>threshold\<close>;
  the instance keeps the verdict and the report. The share is a float, or the integer
  0 of an empty feature list.
\<close>

theorem drift_detected_is_share_above_threshold:
  assumes "detect_data_drift L self r c cols = Inr (rpt, m)"
  shows "getitem rpt ''threshold'' = Inr (VFloat (drift_threshold self)) \<and>
         drift_threshold m = drift_threshold self \<and>
         drift_report m = rpt \<and>
         ((\<exists>x. getitem rpt ''drift_share'' = Inr (VFloat x) \<and>
               getitem rpt ''drift_detected'' = Inr (VBool (x > drift_threshold self)) \<and>
               drift_detected m = (x > drift_threshold self)) \<or>
          (getitem rpt ''drift_share'' = Inr (VInt 0) \<and>
           getitem rpt ''drift_detected'' = Inr (VBool (0 > drift_threshold self)) \<and>
           drift_detected m = (0 > drift_threshold self)))"
  using detect_data_drift_cases[OF assms]
proof
  assume "simple_drift_detection L self r c cols = Inr (rpt, m)"
  from simple_drift_detection_Inr[OF this] show ?thesis
    by (cases "cols = []") (auto simp: getitem_def share_of_def share_gt_def)
next
  assume "EVIDENTLY_AVAILABLE L \<and>
          (\<exists>ms. evidently_metrics L r c cols = Inr ms \<and>
             rpt = [(''timestamp'', VStr (now_utc L)),
                    (''drift_detected'', VBool (share_gt (share_of (n_advanced ms) cols) (drift_threshold self))),
                    (''drift_share'', share_of (n_advanced ms) cols),
                    (''n_drifted_features'', VInt (int (n_advanced ms))),
                    (''n_features'', VInt (int (length cols))),
                    (''threshold'', VFloat (drift_threshold self))] \<and>
             m = self\<lparr>drift_detected := share_gt (share_of (n_advanced ms) cols) (drift_threshold self),
                      drift_report := rpt\<rparr>)"
  then show ?thesis
    by (cases "cols = []") (auto simp: getitem_def share_of_def share_gt_def)
qed

theorem drift_detected_is_share_above_threshold_witness:
  "detect_data_drift ex_libs (DriftMonitor_init ex_libs None) ex_reference ex_current ex_features
     = Inr (ex_report, ex_monitor) \<and>
   getitem ex_report ''threshold'' = Inr (VFloat (1 / 10)) \<and>
   getitem ex_report ''drift_share'' = Inr (VFloat (1 / 3)) \<and>
   getitem ex_report ''drift_detected'' = Inr (VBool True) \<and>
   drift_detected ex_monitor \<and>
   \<not> isl (detect_data_drift ex_libs (DriftMonitor_init ex_libs (Some (1 / 3)))
            ex_reference ex_current ex_features) \<and>
   getitem (fst (projr (detect_data_drift ex_libs (DriftMonitor_init ex_libs (Some (1 / 3)))
            ex_reference ex_current ex_features))) ''threshold'' = Inr (VFloat (1 / 3)) \<and>
   getitem (fst (projr (detect_data_drift ex_libs (DriftMonitor_init ex_libs (Some (1 / 3)))
            ex_reference ex_current ex_features))) ''drift_share'' = Inr (VFloat (1 / 3)) \<and>
   getitem (fst (projr (detect_data_drift ex_libs (DriftMonitor_init ex_libs (Some (1 / 3)))
            ex_reference ex_current ex_features))) ''drift_detected'' = Inr (VBool False) \<and>
   \<not> isl (detect_data_drift ex_libs (DriftMonitor_init ex_libs None)
            ex_reference ex_current []) \<and>
   getitem (fst (projr (detect_data_drift ex_libs (DriftMonitor_init ex_libs None)
            ex_reference ex_current []))) ''drift_share'' = Inr (VInt 0) \<and>
   getitem (fst (projr (detect_data_drift ex_libs (DriftMonitor_init ex_libs None)
            ex_reference ex_current []))) ''drift_detected'' = Inr (VBool False)"
proof -
  let ?B = "detect_data_drift ex_libs (DriftMonitor_init ex_libs (Some (1 / 3)))
              ex_reference ex_current ex_features"
  let ?C = "detect_data_drift ex_libs (DriftMonitor_init ex_libs None) ex_reference ex_current []"
  have tb: "drift_threshold (DriftMonitor_init ex_libs (Some (1 / 3))) = 1 / 3"
    by (simp add: DriftMonitor_init_def)
  \<comment> \<open>a share above the threshold\<close>
  have sa: "getitem ex_report ''drift_share'' = Inr (VFloat (1 / 3))"
    by (simp add: getitem_def ex_report_def)
  note a = drift_detected_is_share_above_threshold[OF ex_detect, unfolded ex_threshold]
  from a have a1: "getitem ex_report ''threshold'' = Inr (VFloat (1 / 10))"
    by blast
  from a sa have a2: "getitem ex_report ''drift_detected'' = Inr (VBool True)"
    and a3: "drift_detected ex_monitor"
    by auto
  \<comment> \<open>a share equal to the threshold\<close>
  have okb: "\<not> isl ?B" by code_simp
  then have eb: "?B = Inr (fst (projr ?B), snd (projr ?B))"
    by (cases ?B) auto
  have sb: "getitem (fst (projr ?B)) ''drift_share'' = Inr (VFloat (1 / 3))"
    by code_simp
  note b = drift_detected_is_share_above_threshold[OF eb, unfolded tb]
  from b have b1: "getitem (fst (projr ?B)) ''threshold'' = Inr (VFloat (1 / 3))"
    by blast
  from b sb have b2: "getitem (fst (projr ?B)) ''drift_detected'' = Inr (VBool False)"
    by auto
  \<comment> \<open>no feature at all\<close>
  have okc: "\<not> isl ?C" by code_simp
  then have ec: "?C = Inr (fst (projr ?C), snd (projr ?C))"
    by (cases ?C) auto
  have sc: "getitem (fst (projr ?C)) ''drift_share'' = Inr (VInt 0)"
    by code_simp
  note c = drift_detected_is_share_above_threshold[OF ec, unfolded ex_threshold]
  from c sc have c2: "getitem (fst (projr ?C)) ''drift_detected'' = Inr (VBool False)"
    by auto
  from ex_detect a1 sa a2 a3 okb b1 sb b2 okc sc c2 show ?thesis
    by (intro conjI)
qed

subsection \<open>The fallback\<close>

text \<open>
  C4, as the code has it. When Evidently is not available, or the advanced strategy
  raises an instance of \<open>Exception\<close>, \<open>detect_data_drift\<close> is the fallback strategy: it
  returns the fallback's report, and raises only what the fallback itself raises. An
  exception of the advanced strategy that is not an instance of \<open>Exception\<close>, such as
  \<open>KeyboardInterrupt\<close> or \<open>SystemExit\<close>, is not caught and leaves \<open>detect_data_drift\<close>.
  The fallback's report is tagged \<open>method = "ks_test"\<close> and has nine fields; the
  advanced strategy's report has six of them and no \<open>drifted_features\<close>, \<open>drift_scores\<close>
  or \<open>method\<close>.
\<close>

theorem fallback_report_shape:
  "(\<not> EVIDENTLY_AVAILABLE L \<or> (\<exists>cl msg. evidently_metrics L r c cols = Inl (Exn cl msg)) \<longrightarrow>
      detect_data_drift L self r c cols = simple_drift_detection L self r c cols) \<and>
   (EVIDENTLY_AVAILABLE L \<and> evidently_metrics L r c cols = Inl (BaseExn bcl bmsg) \<longrightarrow>
      detect_data_drift L self r c cols = Inl (BaseExn bcl bmsg)) \<and>
   (simple_drift_detection L self r c cols = Inr (rpt, m) \<longrightarrow>
      getitem rpt ''method'' = Inr (VStr ''ks_test'') \<and>
      keys rpt = [''timestamp'', ''drift_detected'', ''drift_share'', ''n_drifted_features'',
                  ''n_features'', ''drifted_features'', ''drift_scores'', ''threshold'',
                  ''method'']) \<and>
   (EVIDENTLY_AVAILABLE L \<and> \<not> isl (evidently_metrics L r c cols) \<longrightarrow>
      (\<exists>rpt' m'. detect_data_drift L self r c cols = Inr (rpt', m') \<and>
         getitem rpt' ''method'' = Inl (Exn ''KeyError'' ''method'') \<and>
         keys rpt' = [''timestamp'', ''drift_detected'', ''drift_share'',
                      ''n_drifted_features'', ''n_features'', ''threshold'']))"
proof (intro conjI impI)
  assume "\<not> EVIDENTLY_AVAILABLE L \<or> (\<exists>cl msg. evidently_metrics L r c cols = Inl (Exn cl msg))"
  then show "detect_data_drift L self r c cols = simple_drift_detection L self r c cols"
    by (auto simp: detect_data_drift_def)
next
  assume "EVIDENTLY_AVAILABLE L \<and> evidently_metrics L r c cols = Inl (BaseExn bcl bmsg)"
  then show "detect_data_drift L self r c cols = Inl (BaseExn bcl bmsg)"
    by (simp add: detect_data_drift_def)
next
  assume a: "simple_drift_detection L self r c cols = Inr (rpt, m)"
  from simple_drift_detection_Inr[OF a]
  show "getitem rpt ''method'' = Inr (VStr ''ks_test'')"
    by (auto simp: getitem_def)
  from simple_drift_detection_Inr[OF a]
  show "keys rpt = [''timestamp'', ''drift_detected'', ''drift_share'', ''n_drifted_features'',
                  ''n_features'', ''drifted_features'', ''drift_scores'', ''threshold'',
                  ''method'']"
    by (auto simp: keys_def)
next
  assume "EVIDENTLY_AVAILABLE L \<and> \<not> isl (evidently_metrics L r c cols)"
  then show "\<exists>rpt' m'. detect_data_drift L self r c cols = Inr (rpt', m') \<and>
         getitem rpt' ''method'' = Inl (Exn ''KeyError'' ''method'') \<and>
         keys rpt' = [''timestamp'', ''drift_detected'', ''drift_share'',
                      ''n_drifted_features'', ''n_features'', ''threshold'']"
    by (cases "evidently_metrics L r c cols")
       (auto simp: detect_data_drift_def Let_def getitem_def keys_def)
qed

theorem fallback_report_shape_witness:
  "\<not> EVIDENTLY_AVAILABLE ex_libs \<and>
   detect_data_drift ex_libs (DriftMonitor_init ex_libs None) ex_reference ex_current ex_features
     = simple_drift_detection ex_libs (DriftMonitor_init ex_libs None) ex_reference ex_current
         ex_features \<and>
   simple_drift_detection ex_libs (DriftMonitor_init ex_libs None) ex_reference ex_current
     ex_features = Inr (ex_report, ex_monitor) \<and>
   getitem ex_report ''method'' = Inr (VStr ''ks_test'') \<and>
   keys ex_report = [''timestamp'', ''drift_detected'', ''drift_share'', ''n_drifted_features'',
                     ''n_features'', ''drifted_features'', ''drift_scores'', ''threshold'',
                     ''method''] \<and>
   evidently_metrics ex_libs_evidently ex_reference ex_current ex_features
     = Inl (Exn ''KeyError'' ''c'') \<and>
   detect_data_drift ex_libs_evidently (DriftMonitor_init ex_libs None) ex_reference ex_current
     ex_features
     = simple_drift_detection ex_libs_evidently (DriftMonitor_init ex_libs None) ex_reference
         ex_current ex_features \<and>
   EVIDENTLY_AVAILABLE ex_libs_interrupted \<and>
   evidently_metrics ex_libs_interrupted ex_reference ex_current [''a'', ''b'']
     = Inl (BaseExn ''KeyboardInterrupt'' []) \<and>
   detect_data_drift ex_libs_interrupted (DriftMonitor_init ex_libs None) ex_reference
     ex_current [''a'', ''b''] = Inl (BaseExn ''KeyboardInterrupt'' []) \<and>
   EVIDENTLY_AVAILABLE ex_libs_evidently \<and>
   \<not> isl (evidently_metrics ex_libs_evidently ex_reference ex_current [''a'', ''b'']) \<and>
   (\<exists>rpt' m'. detect_data_drift ex_libs_evidently (DriftMonitor_init ex_libs None)
                 ex_reference ex_current [''a'', ''b''] = Inr (rpt', m') \<and>
       getitem rpt' ''method'' = Inl (Exn ''KeyError'' ''method'') \<and>
       keys rpt' = [''timestamp'', ''drift_detected'', ''drift_share'',
                    ''n_drifted_features'', ''n_features'', ''threshold''])"
proof -
  have a: "\<not> EVIDENTLY_AVAILABLE ex_libs" and b: "EVIDENTLY_AVAILABLE ex_libs_evidently"
    and i: "EVIDENTLY_AVAILABLE ex_libs_interrupted"
    by (simp_all add: ex_libs_def ex_libs_evidently_def ex_libs_interrupted_def)
  have c: "\<exists>cl msg. evidently_metrics ex_libs_evidently ex_reference ex_current ex_features
             = Inl (Exn cl msg)"
    using ex_metrics_raise by blast
  note t1 = fallback_report_shape[of ex_libs ex_reference ex_current ex_features
      "DriftMonitor_init ex_libs None" _ _ ex_report ex_monitor]
  note t2 = fallback_report_shape[of ex_libs_evidently ex_reference ex_current ex_features
      "DriftMonitor_init ex_libs None" _ _ ex_report ex_monitor]
  note t3 = fallback_report_shape[of ex_libs_evidently ex_reference ex_current "[''a'', ''b'']"
      "DriftMonitor_init ex_libs None" _ _ ex_report ex_monitor]
  note t4 = fallback_report_shape[of ex_libs_interrupted ex_reference ex_current "[''a'', ''b'']"
      "DriftMonitor_init ex_libs None" "''KeyboardInterrupt''" "[]" ex_report ex_monitor]
  note p1 = t1[THEN conjunct1, rule_format, OF disjI1, OF a]
  note p2 = t1[THEN conjunct2, THEN conjunct2, THEN conjunct1, rule_format, OF ex_simple]
  note p3 = t2[THEN conjunct1, rule_format, OF disjI2, OF c]
  note p4 = t3[THEN conjunct2, THEN conjunct2, THEN conjunct2, rule_format, OF conjI,
      OF b ex_metrics_ok]
  note p5 = t4[THEN conjunct2, THEN conjunct1, rule_format, OF conjI,
      OF i ex_metrics_interrupted]
  from a b i ex_metrics_raise ex_metrics_interrupted ex_metrics_ok ex_simple p1 p2 p3 p4 p5
  show ?thesis by blast
qed

text \<open>
  C4 as stated fails three times: without Evidently the report is tagged \<open>ks_test\<close>, not
  \<open>fallback\<close>; its fields are not those of the advanced strategy's report; and a
  keyboard interrupt during Evidently's run is propagated.
\<close>

theorem fallback_tag_and_fields_differ:
  "\<not> EVIDENTLY_AVAILABLE ex_libs \<and>
   detect_data_drift ex_libs (DriftMonitor_init ex_libs None) ex_reference ex_current ex_features
     = Inr (ex_report, ex_monitor) \<and>
   getitem ex_report ''method'' = Inr (VStr ''ks_test'') \<and>
   getitem ex_report ''method'' \<noteq> Inr (VStr ''fallback'') \<and>
   detect_data_drift ex_libs_evidently (DriftMonitor_init ex_libs_evidently None)
     ex_reference ex_current [''a'', ''b''] = Inr (ex_report_advanced, ex_monitor_advanced) \<and>
   ''method'' \<in> set (keys ex_report) \<and>
   ''method'' \<notin> set (keys ex_report_advanced) \<and>
   set (keys ex_report) \<noteq> set (keys ex_report_advanced) \<and>
   detect_data_drift ex_libs_interrupted (DriftMonitor_init ex_libs None) ex_reference
     ex_current [''a'', ''b''] = Inl (BaseExn ''KeyboardInterrupt'' [])"
proof -
  have in1: "''method'' \<in> set (keys ex_report)"
    by (simp add: keys_def ex_report_def)
  have in2: "''method'' \<notin> set (keys ex_report_advanced)"
    by (simp add: keys_def ex_report_advanced_def)
  from in1 in2 have ne: "set (keys ex_report) \<noteq> set (keys ex_report_advanced)"
    by blast
  have m: "getitem ex_report ''method'' = Inr (VStr ''ks_test'')"
    by (simp add: getitem_def ex_report_def)
  then have m': "getitem ex_report ''method'' \<noteq> Inr (VStr ''fallback'')"
    by simp
  have a: "\<not> EVIDENTLY_AVAILABLE ex_libs"
    by (simp add: ex_libs_def)
  have k: "detect_data_drift ex_libs_interrupted (DriftMonitor_init ex_libs None) ex_reference
     ex_current [''a'', ''b''] = Inl (BaseExn ''KeyboardInterrupt'' [])"
    by code_simp
  from a ex_detect m m' ex_detect_advanced in1 in2 ne k show ?thesis
    by (intro conjI)
qed

subsection \<open>Empty samples\<close>

text \<open>
  C5, as the code has it. The fallback strategy makes no check of its own on a sample
  that is empty after the removal of missing cells: the two samples go to \<open>ks_2samp\<close> as
  they are and the outcome is that function's. An exception of the fallback strategy
  is one that \<open>ks_2samp\<close> raised on a present feature, unchanged. When the strategy
  returns a report, \<open>ks_2samp\<close> returned on the empty sample; the statistic and the
  p-value it returned, NaN included, are the feature's score, and the feature is
  listed as drifted exactly when the p-value is a number below 0.05, so never when it
  is NaN.
\<close>

theorem empty_sample_outcome:
  assumes k: "k \<in> set cols" and rc: "r k = Some rc" and cc: "c k = Some cc"
    and empty: "dropna rc = [] \<or> dropna cc = []"
  shows "case simple_drift_detection L self r c cols of
           Inl e \<Rightarrow> \<exists>k' \<in> set cols. present r c k' \<and> compare L r c k' = Inl e
         | Inr (rpt, m) \<Rightarrow>
             \<exists>s p sc. ks_2samp L (dropna rc) (dropna cc) = Inr (s, p) \<and>
               getitem rpt ''drift_scores'' = Inr (VDict sc) \<and>
               map_of sc k
                 = Some (VDict [(''statistic'', float_val s), (''p_value'', float_val p)]) \<and>
               (\<exists>fs. getitem rpt ''drifted_features'' = Inr (VList fs) \<and>
                     (VStr k \<in> set fs \<longleftrightarrow> (\<exists>x. p = Some x \<and> x < 0.05)))"
proof (cases "simple_drift_detection L self r c cols")
  case (Inl e)
  from simple_drift_detection_Inl[OF Inl] Inl show ?thesis by simp
next
  case (Inr res)
  obtain rpt m where res: "res = (rpt, m)" by (cases res)
  have pres: "present r c k" using rc cc by (simp add: present_def)
  have cmp: "compare L r c k = ks_2samp L (dropna rc) (dropna cc)"
    using rc cc by (simp add: compare_def)
  from simple_drift_detection_Inr[OF Inr[unfolded res]] obtain sc where
    sc: "\<forall>k. map_of sc k = (if k \<in> set cols \<and> present r c k then Some (score L r c k) else None)"
    and ok: "\<forall>k \<in> set cols. present r c k \<longrightarrow> (\<exists>s p. compare L r c k = Inr (s, p))"
    and g1: "getitem rpt ''drift_scores'' = Inr (VDict sc)"
    and g2: "getitem rpt ''drifted_features'' = Inr (VList (map VStr (filter (drifted L r c) cols)))"
    by (auto simp: getitem_def)
  from ok k pres have "\<exists>s p. compare L r c k = Inr (s, p)" by blast
  then obtain s p where sp: "ks_2samp L (dropna rc) (dropna cc) = Inr (s, p)"
    unfolding cmp by blast
  have "map_of sc k = Some (VDict [(''statistic'', float_val s), (''p_value'', float_val p)])"
    using sc k pres cmp sp by (simp add: score_def)
  moreover have "VStr k \<in> set (map VStr (filter (drifted L r c) cols))
                   \<longleftrightarrow> (\<exists>x. p = Some x \<and> x < 0.05)"
    using k pres cmp sp by (cases p) (auto simp: drifted_def)
  ultimately show ?thesis
    using Inr res sp g1 g2 by auto
qed

theorem empty_sample_outcome_witness:
  "''d'' \<in> set [''d''] \<and> ex_empty_reference ''d'' = Some [None, None] \<and>
   ex_empty_current ''d'' = Some [Some 1, Some 2] \<and> dropna [None, None] = [] \<and>
   simple_drift_detection ex_libs (DriftMonitor_init ex_libs None)
     ex_empty_reference ex_empty_current [''d'']
     = Inl (Exn ''ValueError'' ''Data passed to ks_2samp must not be empty'') \<and>
   (\<exists>k' \<in> set [''d'']. present ex_empty_reference ex_empty_current k' \<and>
       compare ex_libs ex_empty_reference ex_empty_current k'
         = Inl (Exn ''ValueError'' ''Data passed to ks_2samp must not be empty'')) \<and>
   simple_drift_detection (ex_libs\<lparr>ks_2samp := ex_ks_2samp_nan\<rparr>)
     (DriftMonitor_init ex_libs None) ex_empty_reference ex_empty_current [''d'']
     = Inr (ex_report_empty,
            \<lparr> drift_threshold = 1 / 10, drift_detected = False, drift_report = ex_report_empty \<rparr>) \<and>
   (\<exists>s p sc. ks_2samp (ex_libs\<lparr>ks_2samp := ex_ks_2samp_nan\<rparr>)
                (dropna [None, None]) (dropna [Some 1, Some 2]) = Inr (s, p) \<and>
       getitem ex_report_empty ''drift_scores'' = Inr (VDict sc) \<and>
       map_of sc ''d''
         = Some (VDict [(''statistic'', float_val s), (''p_value'', float_val p)]) \<and>
       (\<exists>fs. getitem ex_report_empty ''drifted_features'' = Inr (VList fs) \<and>
             (VStr ''d'' \<in> set fs \<longleftrightarrow> (\<exists>x. p = Some x \<and> x < 0.05))))"
proof -
  have h1: "''d'' \<in> set [''d'']" by simp
  have h2: "ex_empty_reference ''d'' = Some [None, None]"
    by (simp add: ex_empty_reference_def)
  have h3: "ex_empty_current ''d'' = Some [Some 1, Some 2]"
    by (simp add: ex_empty_current_def)
  have h4: "dropna [None, None] = []"
    by (simp add: dropna_def)
  have h5: "dropna [None, None] = [] \<or> dropna [Some 1, Some 2] = []"
    using h4 by simp
  note t = empty_sample_outcome[where k = "''d''" and cols = "[''d'']"
          and r = ex_empty_reference and c = ex_empty_current and rc = "[None, None]"
          and cc = "[Some 1, Some 2]", OF h1 h2 h3 h5]
  have raising: "\<exists>k' \<in> set [''d'']. present ex_empty_reference ex_empty_current k' \<and>
       compare ex_libs ex_empty_reference ex_empty_current k'
         = Inl (Exn ''ValueError'' ''Data passed to ks_2samp must not be empty'')"
    using t[of ex_libs "DriftMonitor_init ex_libs None"] unfolding ex_empty_raises by simp
  have returning: "\<exists>s p sc. ks_2samp (ex_libs\<lparr>ks_2samp := ex_ks_2samp_nan\<rparr>)
                (dropna [None, None]) (dropna [Some 1, Some 2]) = Inr (s, p) \<and>
       getitem ex_report_empty ''drift_scores'' = Inr (VDict sc) \<and>
       map_of sc ''d''
         = Some (VDict [(''statistic'', float_val s), (''p_value'', float_val p)]) \<and>
       (\<exists>fs. getitem ex_report_empty ''drifted_features'' = Inr (VList fs) \<and>
             (VStr ''d'' \<in> set fs \<longleftrightarrow> (\<exists>x. p = Some x \<and> x < 0.05)))"
    using t[of "ex_libs\<lparr>ks_2samp := ex_ks_2samp_nan\<rparr>" "DriftMonitor_init ex_libs None"]
    unfolding ex_empty_nan by simp
  from h1 h2 h3 h4 ex_empty_raises raising ex_empty_nan returning show ?thesis
    by (intro conjI)
qed

text \<open>
  C5 as stated fails: no InsufficientDataError exists in the code. On a reference
  column of missing cells only, the exception of the fallback strategy is the
  ValueError of \<open>ks_2samp\<close>; and with the \<open>ks_2samp\<close> that returns NaN on an empty sample,
  the strategy does not fail at all: it returns a report in which the feature has the
  score NaN and is not drifted.
\<close>

theorem empty_sample_no_InsufficientDataError:
  "dropna (the (ex_empty_reference ''d'')) = [] \<and>
   simple_drift_detection ex_libs (DriftMonitor_init ex_libs None)
     ex_empty_reference ex_empty_current [''d'']
     = Inl (Exn ''ValueError'' ''Data passed to ks_2samp must not be empty'') \<and>
   exn_class (Exn ''ValueError'' ''Data passed to ks_2samp must not be empty'')
     \<noteq> ''InsufficientDataError'' \<and>
   ex_ks_2samp_nan [] [1, 2] = Inr (None, None) \<and>
   simple_drift_detection (ex_libs\<lparr>ks_2samp := ex_ks_2samp_nan\<rparr>)
     (DriftMonitor_init ex_libs None) ex_empty_reference ex_empty_current [''d'']
     = Inr (ex_report_empty,
            \<lparr> drift_threshold = 1 / 10, drift_detected = False, drift_report = ex_report_empty \<rparr>) \<and>
   getitem ex_report_empty ''drift_scores''
     = Inr (VDict [(''d'', VDict [(''statistic'', VNaN), (''p_value'', VNaN)])]) \<and>
   getitem ex_report_empty ''drifted_features'' = Inr (VList [])"
proof -
  have a: "dropna (the (ex_empty_reference ''d'')) = []"
    by (simp add: ex_empty_reference_def dropna_def)
  have b: "exn_class (Exn ''ValueError'' ''Data passed to ks_2samp must not be empty'')
     \<noteq> ''InsufficientDataError''"
    by simp
  have c: "ex_ks_2samp_nan [] [1, 2] = Inr (None, None)"
    by (simp add: ex_ks_2samp_nan_def)
  have d: "getitem ex_report_empty ''drift_scores''
     = Inr (VDict [(''d'', VDict [(''statistic'', VNaN), (''p_value'', VNaN)])])"
    by (simp add: getitem_def ex_report_empty_def)
  have e: "getitem ex_report_empty ''drifted_features'' = Inr (VList [])"
    by (simp add: getitem_def ex_report_empty_def)
  from a ex_empty_raises b c ex_empty_nan d e show ?thesis
    by (intro conjI)
qed

section \<open>Properties of the drift detector\<close>

subsection \<open>One call\<close>

lemma detect_data_drift_fields:
  assumes "detect_data_drift L self r c cols = Inr (rpt, m)"
  shows "\<exists>n. getitem rpt ''drift_detected''
                = Inr (VBool (share_gt (share_of n cols) (drift_threshold self))) \<and>
             getitem rpt ''drift_share'' = Inr (share_of n cols) \<and>
             getitem rpt ''n_drifted_features'' = Inr (VInt (int n)) \<and>
             getitem rpt ''n_features'' = Inr (VInt (int (length cols)))"
  using detect_data_drift_cases[OF assms]
proof
  assume "simple_drift_detection L self r c cols = Inr (rpt, m)"
  from simple_drift_detection_Inr[OF this] show ?thesis
    by (auto simp: getitem_def)
next
  assume "EVIDENTLY_AVAILABLE L \<and>
          (\<exists>ms. evidently_metrics L r c cols = Inr ms \<and>
             rpt = [(''timestamp'', VStr (now_utc L)),
                    (''drift_detected'', VBool (share_gt (share_of (n_advanced ms) cols) (drift_threshold self))),
                    (''drift_share'', share_of (n_advanced ms) cols),
                    (''n_drifted_features'', VInt (int (n_advanced ms))),
                    (''n_features'', VInt (int (length cols))),
                    (''threshold'', VFloat (drift_threshold self))] \<and>
             m = self\<lparr>drift_detected := share_gt (share_of (n_advanced ms) cols) (drift_threshold self),
                      drift_report := rpt\<rparr>)"
  then show ?thesis
    by (auto simp: getitem_def)
qed

lemma create_alert_fields:
  assumes "getitem rpt ''drift_share'' = Inr (share_of n cols)"
    and "getitem rpt ''n_drifted_features'' = Inr nd"
    and "getitem rpt ''n_features'' = Inr nf"
  shows "\<exists>alert. create_alert L rpt = Inr alert \<and>
           getitem alert ''severity''
             = Inr (VStr (if share_gt (share_of n cols) 0.3 then ''high'' else ''medium'')) \<and>
           getitem alert ''details'' = Inr (VDict rpt)"
  using assms by (simp add: create_alert_def py_gt_share_of getitem_def)

lemma deref_list_append: "deref (list_append H a v) a = deref H a @ [v]"
  by (simp add: list_append_def deref_def)

lemma deref_list_append_other: "b \<noteq> a \<Longrightarrow> deref (list_append H a v) b = deref H b"
  by (simp add: list_append_def deref_def)

lemma check_drift_cases:
  assumes "check_drift L self H rp cp cols = Inr (res, self', H')"
  shows "\<exists>r c rpt m n.
           read_csv L rp = Inr r \<and> read_csv L cp = Inr c \<and>
           detect_data_drift L (monitor self) r c cols = Inr (rpt, m) \<and>
           getitem rpt ''drift_share'' = Inr (share_of n cols) \<and>
           getitem rpt ''drift_detected''
             = Inr (VBool (share_gt (share_of n cols) (drift_threshold (monitor self)))) \<and>
           res = [(''drift_report'', VDict rpt), (''alerts'', VRef (alerts self)),
                  (''action_required'',
                     VBool (share_gt (share_of n cols) (drift_threshold (monitor self))))] \<and>
           self' = self\<lparr>monitor := m\<rparr> \<and>
           (if share_gt (share_of n cols) (drift_threshold (monitor self))
            then \<exists>alert. H' = list_append H (alerts self) (VDict alert) \<and>
                   create_alert L rpt = Inr alert \<and>
                   getitem alert ''severity''
                     = Inr (VStr (if share_gt (share_of n cols) 0.3 then ''high'' else ''medium'')) \<and>
                   getitem alert ''details'' = Inr (VDict rpt)
            else H' = H)"
proof -
  from assms obtain r where r: "read_csv L rp = Inr r"
    by (cases "read_csv L rp") (auto simp: check_drift_def)
  from assms r obtain c where c: "read_csv L cp = Inr c"
    by (cases "read_csv L cp") (auto simp: check_drift_def)
  from assms r c obtain rpt m where
    d: "detect_data_drift L (monitor self) r c cols = Inr (rpt, m)"
    by (cases "detect_data_drift L (monitor self) r c cols") (auto simp: check_drift_def)
  from detect_data_drift_fields[OF d] obtain n where
    f1: "getitem rpt ''drift_detected''
           = Inr (VBool (share_gt (share_of n cols) (drift_threshold (monitor self))))"
    and f2: "getitem rpt ''drift_share'' = Inr (share_of n cols)"
    and f3: "getitem rpt ''n_drifted_features'' = Inr (VInt (int n))"
    and f4: "getitem rpt ''n_features'' = Inr (VInt (int (length cols)))"
    by blast
  from create_alert_fields[OF f2 f3 f4, of L] obtain alert where
    a: "create_alert L rpt = Inr alert"
    and a1: "getitem alert ''severity''
               = Inr (VStr (if share_gt (share_of n cols) 0.3 then ''high'' else ''medium''))"
    and a2: "getitem alert ''details'' = Inr (VDict rpt)"
    by blast
  show ?thesis
  proof (cases "share_gt (share_of n cols) (drift_threshold (monitor self))")
    case True
    with assms r c d f1 a have "res = [(''drift_report'', VDict rpt), (''alerts'', VRef (alerts self)),
                  (''action_required'', VBool True)] \<and> self' = self\<lparr>monitor := m\<rparr> \<and>
                  H' = list_append H (alerts self) (VDict alert)"
      by (simp add: check_drift_def Let_def)
    with True r c d f1 f2 a a1 a2 show ?thesis by auto
  next
    case False
    with assms r c d f1 have "res = [(''drift_report'', VDict rpt), (''alerts'', VRef (alerts self)),
                  (''action_required'', VBool False)] \<and> self' = self\<lparr>monitor := m\<rparr> \<and> H' = H"
      by (simp add: check_drift_def Let_def)
    with False r c d f1 f2 show ?thesis by auto
  qed
qed

text \<open>
  C3. Every call of \<open>check_drift\<close> that returns hands back the report it obtained, and
  \<open>action_required\<close> is the report's \<open>drift_detected\<close>. When that is true, the store after
  the call is the store before with exactly one alert appended to the detector's list,
  the alert carries the report, and its severity is \<open>high\<close> when the report's
  \<open>drift_share\<close> is strictly greater than 0.3 and \<open>medium\<close> otherwise, so \<open>medium\<close> at
  exactly 0.3 and at the integer 0 of an empty feature list. When it is false, the
  store is unchanged: no alert is created.
\<close>

theorem check_drift_alert_iff_detected:
  assumes "check_drift L self H rp cp cols = Inr (res, self', H')"
  shows "\<exists>rpt b. getitem res ''drift_report'' = Inr (VDict rpt) \<and>
           getitem rpt ''drift_detected'' = Inr (VBool b) \<and>
           getitem res ''action_required'' = Inr (VBool b) \<and>
           alerts self' = alerts self \<and>
           (if b
            then \<exists>alert. H' = list_append H (alerts self) (VDict alert) \<and>
                   deref H' (alerts self) = deref H (alerts self) @ [VDict alert] \<and>
                   getitem alert ''details'' = Inr (VDict rpt) \<and>
                   ((\<exists>x. getitem rpt ''drift_share'' = Inr (VFloat x) \<and>
                         getitem alert ''severity''
                           = Inr (VStr (if x > 0.3 then ''high'' else ''medium''))) \<or>
                    (getitem rpt ''drift_share'' = Inr (VInt 0) \<and>
                     getitem alert ''severity'' = Inr (VStr ''medium'')))
            else H' = H)"
proof -
  from check_drift_cases[OF assms] obtain rpt n where
    s: "getitem rpt ''drift_share'' = Inr (share_of n cols)"
    and d: "getitem rpt ''drift_detected''
              = Inr (VBool (share_gt (share_of n cols) (drift_threshold (monitor self))))"
    and res: "res = [(''drift_report'', VDict rpt), (''alerts'', VRef (alerts self)),
                  (''action_required'',
                     VBool (share_gt (share_of n cols) (drift_threshold (monitor self))))]"
    and self': "\<exists>m. self' = self\<lparr>monitor := m\<rparr>"
    and br: "if share_gt (share_of n cols) (drift_threshold (monitor self))
            then \<exists>alert. H' = list_append H (alerts self) (VDict alert) \<and>
                   create_alert L rpt = Inr alert \<and>
                   getitem alert ''severity''
                     = Inr (VStr (if share_gt (share_of n cols) 0.3 then ''high'' else ''medium'')) \<and>
                   getitem alert ''details'' = Inr (VDict rpt)
            else H' = H"
    by blast
  let ?b = "share_gt (share_of n cols) (drift_threshold (monitor self))"
  have g1: "getitem res ''drift_report'' = Inr (VDict rpt)"
    and g2: "getitem res ''action_required'' = Inr (VBool ?b)"
    by (simp_all add: res getitem_def)
  have g3: "alerts self' = alerts self"
    using self' by auto
  have g4: "if ?b
            then \<exists>alert. H' = list_append H (alerts self) (VDict alert) \<and>
                   deref H' (alerts self) = deref H (alerts self) @ [VDict alert] \<and>
                   getitem alert ''details'' = Inr (VDict rpt) \<and>
                   ((\<exists>x. getitem rpt ''drift_share'' = Inr (VFloat x) \<and>
                         getitem alert ''severity''
                           = Inr (VStr (if x > 0.3 then ''high'' else ''medium''))) \<or>
                    (getitem rpt ''drift_share'' = Inr (VInt 0) \<and>
                     getitem alert ''severity'' = Inr (VStr ''medium'')))
            else H' = H"
  proof (cases ?b)
    case True
    with br obtain alert where
      h: "H' = list_append H (alerts self) (VDict alert)"
      and sev: "getitem alert ''severity''
                  = Inr (VStr (if share_gt (share_of n cols) 0.3 then ''high'' else ''medium''))"
      and det: "getitem alert ''details'' = Inr (VDict rpt)"
      by auto
    have app: "deref H' (alerts self) = deref H (alerts self) @ [VDict alert]"
      by (simp add: h deref_list_append)
    have sv: "(\<exists>x. getitem rpt ''drift_share'' = Inr (VFloat x) \<and>
                   getitem alert ''severity''
                     = Inr (VStr (if x > 0.3 then ''high'' else ''medium''))) \<or>
              (getitem rpt ''drift_share'' = Inr (VInt 0) \<and>
               getitem alert ''severity'' = Inr (VStr ''medium''))"
      using s sev by (cases "cols = []") (simp_all add: share_of_def share_gt_def)
    from True h app det sv show ?thesis
      by auto
  next
    case False
    with br show ?thesis by simp
  qed
  from g1 d g2 g3 g4 show ?thesis by blast
qed

theorem check_drift_alert_iff_detected_witness:
  "\<not> isl (check_drift ex_libs ex_detector ex_heap_init
             ''train_features.csv'' ''recent.csv'' ex_features) \<and>
   getitem (fst (projr (check_drift ex_libs ex_detector ex_heap_init
             ''train_features.csv'' ''recent.csv'' ex_features))) ''action_required''
     = Inr (VBool True) \<and>
   getitem (dict_of (projr (getitem (fst (projr (check_drift ex_libs ex_detector ex_heap_init
             ''train_features.csv'' ''recent.csv'' ex_features))) ''drift_report'')))
     ''drift_share'' = Inr (VFloat (1 / 3)) \<and>
   length (deref (snd (snd (projr (check_drift ex_libs ex_detector ex_heap_init
             ''train_features.csv'' ''recent.csv'' ex_features)))) (alerts ex_detector)) = 1 \<and>
   getitem (dict_of (last (deref (snd (snd (projr (check_drift ex_libs ex_detector ex_heap_init
             ''train_features.csv'' ''recent.csv'' ex_features)))) (alerts ex_detector))))
     ''severity'' = Inr (VStr ''high'') \<and>
   \<not> isl (check_drift ex_libs10 ex_detector ex_heap_init
             ''train10.csv'' ''recent10.csv'' ex_features10) \<and>
   getitem (fst (projr (check_drift ex_libs10 ex_detector ex_heap_init
             ''train10.csv'' ''recent10.csv'' ex_features10))) ''action_required''
     = Inr (VBool True) \<and>
   getitem (dict_of (projr (getitem (fst (projr (check_drift ex_libs10 ex_detector ex_heap_init
             ''train10.csv'' ''recent10.csv'' ex_features10))) ''drift_report'')))
     ''drift_share'' = Inr (VFloat (3 / 10)) \<and>
   getitem (dict_of (last (deref (snd (snd (projr (check_drift ex_libs10 ex_detector ex_heap_init
             ''train10.csv'' ''recent10.csv'' ex_features10)))) (alerts ex_detector))))
     ''severity'' = Inr (VStr ''medium'') \<and>
   \<not> isl (check_drift ex_libs ex_detector ex_heap_init
             ''train_features.csv'' ''train_features.csv'' ex_features) \<and>
   getitem (fst (projr (check_drift ex_libs ex_detector ex_heap_init
             ''train_features.csv'' ''train_features.csv'' ex_features))) ''action_required''
     = Inr (VBool False) \<and>
   snd (snd (projr (check_drift ex_libs ex_detector ex_heap_init
             ''train_features.csv'' ''train_features.csv'' ex_features))) = ex_heap_init"
proof -
  let ?a = "alerts ex_detector"
  let ?R1 = "check_drift ex_libs ex_detector ex_heap_init
               ''train_features.csv'' ''recent.csv'' ex_features"
  let ?R2 = "check_drift ex_libs10 ex_detector ex_heap_init
               ''train10.csv'' ''recent10.csv'' ex_features10"
  let ?R3 = "check_drift ex_libs ex_detector ex_heap_init
               ''train_features.csv'' ''train_features.csv'' ex_features"
  have empty: "deref ex_heap_init ?a = []" by code_simp
  have sev: "getitem (dict_of (last (deref (snd (snd (projr
                (check_drift L ex_detector ex_heap_init rp cp cols)))) ?a))) ''severity''
               = Inr (VStr (if x > 0.3 then ''high'' else ''medium''))"
    if ok: "\<not> isl (check_drift L ex_detector ex_heap_init rp cp cols)"
      and act: "getitem (fst (projr (check_drift L ex_detector ex_heap_init rp cp cols)))
                  ''action_required'' = Inr (VBool True)"
      and sh: "getitem (dict_of (projr (getitem (fst (projr
                  (check_drift L ex_detector ex_heap_init rp cp cols))) ''drift_report'')))
                  ''drift_share'' = Inr (VFloat x)"
    for L rp cp cols x
  proof -
    let ?R = "check_drift L ex_detector ex_heap_init rp cp cols"
    from ok have e: "?R = Inr (fst (projr ?R), fst (snd (projr ?R)), snd (snd (projr ?R)))"
      by (cases ?R) auto
    from check_drift_alert_iff_detected[OF e] obtain rpt b where
      g1: "getitem (fst (projr ?R)) ''drift_report'' = Inr (VDict rpt)"
      and g2: "getitem (fst (projr ?R)) ''action_required'' = Inr (VBool b)"
      and g3: "if b
            then \<exists>alert. snd (snd (projr ?R)) = list_append ex_heap_init ?a (VDict alert) \<and>
                   deref (snd (snd (projr ?R))) ?a = deref ex_heap_init ?a @ [VDict alert] \<and>
                   getitem alert ''details'' = Inr (VDict rpt) \<and>
                   ((\<exists>x. getitem rpt ''drift_share'' = Inr (VFloat x) \<and>
                         getitem alert ''severity''
                           = Inr (VStr (if x > 0.3 then ''high'' else ''medium''))) \<or>
                    (getitem rpt ''drift_share'' = Inr (VInt 0) \<and>
                     getitem alert ''severity'' = Inr (VStr ''medium'')))
            else snd (snd (projr ?R)) = ex_heap_init"
      by blast
    from g2 act have b by simp
    with g3 obtain alert where
      d: "deref (snd (snd (projr ?R))) ?a = deref ex_heap_init ?a @ [VDict alert]"
      and sv: "(\<exists>x. getitem rpt ''drift_share'' = Inr (VFloat x) \<and>
                     getitem alert ''severity''
                       = Inr (VStr (if x > 0.3 then ''high'' else ''medium''))) \<or>
               (getitem rpt ''drift_share'' = Inr (VInt 0) \<and>
                getitem alert ''severity'' = Inr (VStr ''medium''))"
      by auto
    from g1 sh have "getitem rpt ''drift_share'' = Inr (VFloat x)"
      by (simp add: dict_of_def)
    with sv have "getitem alert ''severity''
                    = Inr (VStr (if x > 0.3 then ''high'' else ''medium''))"
      by auto
    with d show ?thesis
      by (simp add: dict_of_def)
  qed
  \<comment> \<open>a share above 0.3\<close>
  have ok1: "\<not> isl ?R1" by code_simp
  have act1: "getitem (fst (projr ?R1)) ''action_required'' = Inr (VBool True)" by code_simp
  have sh1: "getitem (dict_of (projr (getitem (fst (projr ?R1)) ''drift_report'')))
               ''drift_share'' = Inr (VFloat (1 / 3))" by code_simp
  have len1: "length (deref (snd (snd (projr ?R1))) ?a) = 1" by code_simp
  have sev1: "getitem (dict_of (last (deref (snd (snd (projr ?R1))) ?a))) ''severity''
                = Inr (VStr ''high'')"
    using sev[OF ok1 act1 sh1] by simp
  \<comment> \<open>a share of exactly 0.3\<close>
  have ok2: "\<not> isl ?R2" by code_simp
  have act2: "getitem (fst (projr ?R2)) ''action_required'' = Inr (VBool True)" by code_simp
  have sh2: "getitem (dict_of (projr (getitem (fst (projr ?R2)) ''drift_report'')))
               ''drift_share'' = Inr (VFloat (3 / 10))" by code_simp
  have sev2: "getitem (dict_of (last (deref (snd (snd (projr ?R2))) ?a))) ''severity''
                = Inr (VStr ''medium'')"
    using sev[OF ok2 act2 sh2] by simp
  \<comment> \<open>no drift\<close>
  have ok3: "\<not> isl ?R3" by code_simp
  have act3: "getitem (fst (projr ?R3)) ''action_required'' = Inr (VBool False)" by code_simp
  from ok3 have e3: "?R3 = Inr (fst (projr ?R3), fst (snd (projr ?R3)), snd (snd (projr ?R3)))"
    by (cases ?R3) auto
  from check_drift_alert_iff_detected[OF e3] act3
  have same3: "snd (snd (projr ?R3)) = ex_heap_init"
    by auto
  from ok1 act1 sh1 len1 sev1 ok2 act2 sh2 sev2 ok3 act3 same3 show ?thesis
    by (intro conjI)
qed

subsection \<open>A sequence of calls\<close>





section \<open>Properties of the retraining DAG\<close>

subsection \<open>What a task can change\<close>

lemma run_dag_prefix: "run_dag W = run_prefix W topological_order"
  by (simp add: run_dag_def run_prefix_def)

lemma run_prefix_Nil:
  "run_prefix W [] = \<lparr>state = Map.empty, xcoms = Map.empty, log = []\<rparr>"
  by (simp add: run_prefix_def)

lemma run_prefix_snoc: "run_prefix W (ts @ [t]) = run_task W (run_prefix W ts) t"
  by (simp add: run_prefix_def)

lemma python_callable_events:
  "e \<in> set (fst (python_callable t W X)) \<Longrightarrow> t = task_drift \<and> e = Engine_called"
  by (cases t)
     (auto simp: collect_recent_data_def detect_drift_def trigger_retrain_def
        evaluate_new_model_def deploy_to_staging_def send_drift_alert_def Let_def
        split: if_splits sum.splits prod.splits pyval.splits)

lemma attempt_events:
  "e \<in> set (fst (attempt Wt t X n k)) \<Longrightarrow>
     e = Started t \<or> (t = task_drift \<and> e = Engine_called)"
proof (induction k arbitrary: n)
  case 0
  then show ?case
    by (auto simp: split_beta dest: python_callable_events)
next
  case (Suc k)
  obtain ev r where pc: "python_callable t (Wt n) X = (ev, r)"
    by (cases "python_callable t (Wt n) X")
  have ev: "\<And>x. x \<in> set ev \<Longrightarrow> t = task_drift \<and> x = Engine_called"
    using python_callable_events[of _ t "Wt n" X] pc by simp
  show ?case
  proof (cases r)
    case (Inr v)
    with Suc.prems pc ev show ?thesis by auto
  next
    case (Inl x)
    obtain ev' r' where at: "attempt Wt t X (Suc n) k = (ev', r')"
      by (cases "attempt Wt t X (Suc n) k")
    from Suc.prems pc Inl at have "e = Started t \<or> e \<in> set ev \<or> e \<in> set ev'"
      by auto
    moreover have "e \<in> set ev' \<Longrightarrow> e = Started t \<or> (t = task_drift \<and> e = Engine_called)"
      using Suc.IH[of "Suc n"] at by simp
    ultimately show ?thesis using ev by blast
  qed
qed

lemma downstream_branch: "downstream task_branch = [task_retrain, task_skip]"
  by (simp add: downstream_def edges_def)

lemma skip_all_except_branch:
  "skip_all_except st [task_retrain, task_skip] b =
     (if b = ''trigger_retrain'' then st(task_skip \<mapsto> Skipped)
      else if b = ''skip_retrain'' then st(task_retrain \<mapsto> Skipped)
      else st(task_retrain \<mapsto> Skipped, task_skip \<mapsto> Skipped))"
  by (auto simp: skip_all_except_def)

lemma push_all_other:
  "tid \<noteq> task_id t \<Longrightarrow> push_all X t v pushes (tid, k) = X (tid, k)"
proof -
  assume ne: "tid \<noteq> task_id t"
  have "fold (\<lambda>(k', w) Y. Y((task_id t, k') \<mapsto> w)) pushes X (tid, k) = X (tid, k)" for X
    using ne by (induction pushes arbitrary: X) (auto simp: split_beta)
  with ne show ?thesis
    by (simp add: push_all_def Let_def)
qed

lemma run_task_done: "state R t = Some s \<Longrightarrow> run_task W R t = R"
  by (simp add: run_task_def)

lemma execute_state_other:
  assumes "u \<noteq> t" and "t = task_branch \<longrightarrow> u \<noteq> task_retrain \<and> u \<noteq> task_skip"
  shows "state (execute W R t) u = state R u"
proof (cases "operator_of t")
  case PythonOperator
  with assms show ?thesis
    by (auto simp: execute_def split: prod.splits sum.splits)
next
  case DummyOperator
  with assms show ?thesis
    by (simp add: execute_def)
next
  case BranchPythonOperator
  then have t: "t = task_branch" by (cases t) auto
  with assms show ?thesis
    by (auto simp: execute_def downstream_branch skip_all_except_branch
        split: prod.splits sum.splits pyval.splits)
qed

lemma run_task_state_other:
  assumes "u \<noteq> t" and "t = task_branch \<longrightarrow> u \<noteq> task_retrain \<and> u \<noteq> task_skip"
  shows "state (run_task W R t) u = state R u"
  using assms execute_state_other[OF assms, of W R]
  by (auto simp: run_task_def split: option.splits)

lemma execute_log:
  assumes "e \<in> set (log (execute W R t))"
  shows "e \<in> set (log R) \<or> e = Started t \<or> (t = task_drift \<and> e = Engine_called)"
proof (cases "operator_of t")
  case DummyOperator
  with assms show ?thesis by (auto simp: execute_def)
next
  case PythonOperator
  obtain ev r where at: "attempt (W t) t (xcoms R) 1 retries = (ev, r)"
    by (cases "attempt (W t) t (xcoms R) 1 retries")
  from assms PythonOperator at have "e \<in> set (log R) \<or> e \<in> set ev"
    by (auto simp: execute_def split: sum.splits)
  with attempt_events[of e "W t" t "xcoms R" 1 retries] at show ?thesis by auto
next
  case BranchPythonOperator
  obtain ev r where at: "attempt (W t) t (xcoms R) 1 retries = (ev, r)"
    by (cases "attempt (W t) t (xcoms R) 1 retries")
  from assms BranchPythonOperator at have "e \<in> set (log R) \<or> e \<in> set ev"
    by (auto simp: execute_def split: sum.splits pyval.splits if_splits)
  with attempt_events[of e "W t" t "xcoms R" 1 retries] at show ?thesis by auto
qed

lemma run_task_log:
  assumes "e \<in> set (log (run_task W R t))"
  shows "e \<in> set (log R) \<or> e = Started t \<or> (t = task_drift \<and> e = Engine_called)"
  using assms execute_log[of e W R t]
  by (auto simp: run_task_def split: option.splits)

lemma execute_log_mono: "set (log R) \<subseteq> set (log (execute W R t))"
  by (cases "operator_of t")
     (auto simp: execute_def split: prod.splits sum.splits pyval.splits)

lemma run_task_log_mono: "set (log R) \<subseteq> set (log (run_task W R t))"
  using execute_log_mono[of R W t]
  by (auto simp: run_task_def split: option.splits)

lemma execute_xcoms_other:
  "tid \<noteq> task_id t \<Longrightarrow> xcoms (execute W R t) (tid, k) = xcoms R (tid, k)"
  by (cases "operator_of t")
     (auto simp: execute_def push_all_other split: prod.splits sum.splits pyval.splits)

lemma run_task_xcoms_other:
  "tid \<noteq> task_id t \<Longrightarrow> xcoms (run_task W R t) (tid, k) = xcoms R (tid, k)"
  using execute_xcoms_other[of tid t W R k]
  by (auto simp: run_task_def split: option.splits)

lemma run_prefix_state_None:
  "u \<notin> set ts \<Longrightarrow> (task_branch \<in> set ts \<longrightarrow> u \<noteq> task_retrain \<and> u \<noteq> task_skip) \<Longrightarrow>
     state (run_prefix W ts) u = None"
proof (induction ts rule: rev_induct)
  case Nil
  then show ?case by (simp add: run_prefix_Nil)
next
  case (snoc t ts)
  then show ?case
    by (simp add: run_prefix_snoc run_task_state_other)
qed

lemma run_prefix_log:
  "e \<in> set (log (run_prefix W ts)) \<Longrightarrow>
     (\<exists>t \<in> set ts. e = Started t) \<or> (e = Engine_called \<and> task_drift \<in> set ts)"
proof (induction ts rule: rev_induct)
  case Nil
  then show ?case by (simp add: run_prefix_Nil)
next
  case (snoc t ts)
  from snoc.prems run_task_log[of e W "run_prefix W ts" t]
  have "e \<in> set (log (run_prefix W ts)) \<or> e = Started t \<or> (t = task_drift \<and> e = Engine_called)"
    by (simp add: run_prefix_snoc)
  with snoc.IH show ?case by auto
qed

lemma run_prefix_xcoms_None:
  "tid \<notin> task_id ` set ts \<Longrightarrow> xcoms (run_prefix W ts) (tid, k) = None"
proof (induction ts rule: rev_induct)
  case Nil
  then show ?case by (simp add: run_prefix_Nil)
next
  case (snoc t ts)
  then show ?case
    by (simp add: run_prefix_snoc run_task_xcoms_other)
qed

subsection \<open>The branch and the two paths\<close>

lemma upstream_simps:
  "upstream task_collect = []"
  "upstream task_drift = [task_collect]"
  "upstream task_branch = [task_drift]"
  "upstream task_retrain = [task_branch]"
  "upstream task_evaluate = [task_retrain]"
  "upstream task_deploy = [task_evaluate]"
  "upstream task_alert = [task_deploy]"
  "upstream task_skip = [task_branch]"
  "upstream task_end = [task_alert, task_skip]"
  by (simp_all add: upstream_def edges_def)

lemma branch_attempt:
  "attempt Wt task_branch X n k = ([Started task_branch], Inr (VStr (check_drift_decision X), []))"
  by (cases k) simp_all

lemma retrain_attempt:
  "attempt Wt task_retrain X n k = ([Started task_retrain], Inr (VNone, []))"
  by (cases k) (simp_all add: trigger_retrain_def split: sum.splits)

lemma run_task_state_set: "state (run_task W R t) t \<noteq> None"
  by (cases t)
     (auto simp: run_task_def execute_def downstream_branch skip_all_except_branch
        split: option.splits prod.splits sum.splits pyval.splits)

lemma branch_step:
  assumes "state R task_branch = None" and "state R task_drift = Some d"
  shows "run_task W R task_branch =
     (if d = Success
      then R\<lparr>state :=
               (if truthy (xcom_pull (xcoms R) ''detect_drift'' ''drift_detected'')
                then (state R)(task_branch \<mapsto> Success, task_skip \<mapsto> Skipped)
                else (state R)(task_branch \<mapsto> Success, task_retrain \<mapsto> Skipped)),
             xcoms := (xcoms R)((''check_drift_decision'', ''return_value'') \<mapsto>
                        VStr (check_drift_decision (xcoms R))),
             log := log R @ [Started task_branch]\<rparr>
      else R\<lparr>state := (state R)(task_branch \<mapsto> (if d = Skipped then Skipped else Upstream_failed))\<rparr>)"
  using assms
  by (cases d)
     (auto simp: run_task_def rule_verdict_def upstream_simps execute_def branch_attempt
        downstream_branch skip_all_except_branch check_drift_decision_def push_all_def Let_def)

lemma skip_path:
  assumes "state R task_branch = Some Success" and "state R task_retrain = Some Skipped"
    and "state R task_skip = None" and "state R task_evaluate = None"
    and "state R task_deploy = None" and "state R task_alert = None"
    and "state R task_end = None"
  shows "foldl (run_task W) R
           [task_retrain, task_evaluate, task_deploy, task_alert, task_skip, task_end]
         = R\<lparr>state := (state R)(task_evaluate \<mapsto> Skipped, task_deploy \<mapsto> Skipped,
                    task_alert \<mapsto> Skipped, task_skip \<mapsto> Success, task_end \<mapsto> Success),
              log := log R @ [Started task_skip, Started task_end]\<rparr>"
  using assms
  by (simp add: run_task_def rule_verdict_def upstream_simps execute_def)

lemma run_dag_split:
  "run_dag W =
     foldl (run_task W) (run_task W (run_prefix W [task_collect, task_drift]) task_branch)
       [task_retrain, task_evaluate, task_deploy, task_alert, task_skip, task_end]"
  by (simp add: run_dag_def run_prefix_def topological_order_def)

lemma after_drift_state:
  "state (run_prefix W [task_collect, task_drift]) task_drift \<noteq> None"
  "state (run_prefix W [task_collect, task_drift]) task_branch = None"
  "state (run_prefix W [task_collect, task_drift]) task_retrain = None"
  "state (run_prefix W [task_collect, task_drift]) task_evaluate = None"
  "state (run_prefix W [task_collect, task_drift]) task_deploy = None"
  "state (run_prefix W [task_collect, task_drift]) task_alert = None"
  "state (run_prefix W [task_collect, task_drift]) task_skip = None"
  "state (run_prefix W [task_collect, task_drift]) task_end = None"
proof -
  have "run_prefix W [task_collect, task_drift]
          = run_task W (run_prefix W [task_collect]) task_drift"
    using run_prefix_snoc[of W "[task_collect]" task_drift] by simp
  then show "state (run_prefix W [task_collect, task_drift]) task_drift \<noteq> None"
    by (simp add: run_task_state_set)
qed (simp_all add: run_prefix_state_None)

lemma foldl_state_other:
  "u \<notin> set ts \<Longrightarrow> task_branch \<notin> set ts \<Longrightarrow>
     state (foldl (run_task W) R ts) u = state R u"
proof (induction ts arbitrary: R)
  case Nil
  then show ?case by simp
next
  case (Cons t ts)
  from Cons.prems have "u \<noteq> t" and "t \<noteq> task_branch" by auto
  then have "state (run_task W R t) u = state R u"
    by (intro run_task_state_other) simp_all
  with Cons.IH[of "run_task W R t"] Cons.prems show ?case by simp
qed

lemma foldl_xcoms_other:
  "tid \<notin> task_id ` set ts \<Longrightarrow> xcoms (foldl (run_task W) R ts) (tid, k) = xcoms R (tid, k)"
  by (induction ts arbitrary: R) (simp_all add: run_task_xcoms_other)

lemma foldl_log:
  "e \<in> set (log (foldl (run_task W) R ts)) \<Longrightarrow>
     e \<in> set (log R) \<or> (\<exists>t \<in> set ts. e = Started t) \<or> (e = Engine_called \<and> task_drift \<in> set ts)"
proof (induction ts arbitrary: R)
  case Nil
  then show ?case by simp
next
  case (Cons t ts)
  from Cons.IH[of "run_task W R t"] Cons.prems
  have "e \<in> set (log (run_task W R t)) \<or> (\<exists>t \<in> set ts. e = Started t)
          \<or> (e = Engine_called \<and> task_drift \<in> set ts)"
    by simp
  with run_task_log[of e W R t] show ?case by auto
qed

lemma foldl_log_mono: "set (log R) \<subseteq> set (log (foldl (run_task W) R ts))"
proof (induction ts arbitrary: R)
  case Nil
  then show ?case by simp
next
  case (Cons t ts)
  from Cons.IH[of "run_task W R t"] run_task_log_mono[of R W t] show ?case
    by auto
qed

lemma decided_run:
  assumes "state (run_dag W) task_branch = Some Success"
  shows "state (run_prefix W [task_collect, task_drift]) task_drift = Some Success"
proof -
  let ?P = "run_prefix W [task_collect, task_drift]"
  let ?R = "run_task W ?P task_branch"
  have "state (run_dag W) task_branch = state ?R task_branch"
    unfolding run_dag_split by (rule foldl_state_other) simp_all
  with assms have b: "state ?R task_branch = Some Success" by simp
  from after_drift_state(1)[of W] obtain d where d: "state ?P task_drift = Some d"
    by auto
  from b branch_step[OF after_drift_state(2) d, of W] have "d = Success"
    by (auto split: if_splits)
  with d show ?thesis by simp
qed

lemma after_branch:
  assumes "state (run_prefix W [task_collect, task_drift]) task_drift = Some Success"
  shows "run_task W (run_prefix W [task_collect, task_drift]) task_branch =
     (run_prefix W [task_collect, task_drift])
       \<lparr>state :=
          (if truthy (xcom_pull (xcoms (run_prefix W [task_collect, task_drift]))
                        ''detect_drift'' ''drift_detected'')
           then (state (run_prefix W [task_collect, task_drift]))
                  (task_branch \<mapsto> Success, task_skip \<mapsto> Skipped)
           else (state (run_prefix W [task_collect, task_drift]))
                  (task_branch \<mapsto> Success, task_retrain \<mapsto> Skipped)),
        xcoms := (xcoms (run_prefix W [task_collect, task_drift]))
                   ((''check_drift_decision'', ''return_value'') \<mapsto>
                      VStr (check_drift_decision (xcoms (run_prefix W [task_collect, task_drift])))),
        log := log (run_prefix W [task_collect, task_drift]) @ [Started task_branch]\<rparr>"
  using branch_step[OF after_drift_state(2) assms, of W] by simp

lemma skip_run:
  assumes d: "state (run_prefix W [task_collect, task_drift]) task_drift = Some Success"
    and v: "\<not> truthy (xcom_pull (xcoms (run_prefix W [task_collect, task_drift]))
                        ''detect_drift'' ''drift_detected'')"
  shows "run_dag W =
     (run_prefix W [task_collect, task_drift])
       \<lparr>state := (state (run_prefix W [task_collect, task_drift]))
                   (task_branch \<mapsto> Success, task_retrain \<mapsto> Skipped,
                    task_evaluate \<mapsto> Skipped, task_deploy \<mapsto> Skipped,
                    task_alert \<mapsto> Skipped, task_skip \<mapsto> Success, task_end \<mapsto> Success),
        xcoms := (xcoms (run_prefix W [task_collect, task_drift]))
                   ((''check_drift_decision'', ''return_value'') \<mapsto> VStr ''skip_retrain''),
        log := log (run_prefix W [task_collect, task_drift])
                 @ [Started task_branch, Started task_skip, Started task_end]\<rparr>"
proof -
  let ?P = "run_prefix W [task_collect, task_drift]"
  let ?R = "run_task W ?P task_branch"
  have cdd: "check_drift_decision (xcoms ?P) = ''skip_retrain''"
    using v by (simp add: check_drift_decision_def Let_def)
  have R: "?R = ?P\<lparr>state := (state ?P)(task_branch \<mapsto> Success, task_retrain \<mapsto> Skipped),
               xcoms := (xcoms ?P)((''check_drift_decision'', ''return_value'') \<mapsto>
                          VStr ''skip_retrain''),
               log := log ?P @ [Started task_branch]\<rparr>"
    using after_branch[OF d] v cdd by simp
  have s: "state ?R task_branch = Some Success" "state ?R task_retrain = Some Skipped"
    "state ?R task_skip = None" "state ?R task_evaluate = None" "state ?R task_deploy = None"
    "state ?R task_alert = None" "state ?R task_end = None"
    unfolding R by (simp_all add: after_drift_state)
  show ?thesis
    unfolding run_dag_split skip_path[OF s] unfolding R by simp
qed

lemma retrain_run:
  assumes d: "state (run_prefix W [task_collect, task_drift]) task_drift = Some Success"
    and v: "truthy (xcom_pull (xcoms (run_prefix W [task_collect, task_drift]))
                      ''detect_drift'' ''drift_detected'')"
  shows "state (run_dag W) task_skip = Some Skipped"
    and "Started task_skip \<notin> set (log (run_dag W))"
    and "state (run_dag W) task_retrain = Some Success"
    and "Started task_retrain \<in> set (log (run_dag W))"
    and "xcoms (run_dag W) (''check_drift_decision'', ''return_value'')
           = Some (VStr ''trigger_retrain'')"
proof -
  let ?P = "run_prefix W [task_collect, task_drift]"
  let ?R = "run_task W ?P task_branch"
  let ?R4 = "run_task W ?R task_retrain"
  let ?R7 = "foldl (run_task W) ?R [task_retrain, task_evaluate, task_deploy, task_alert]"
  have cdd: "check_drift_decision (xcoms ?P) = ''trigger_retrain''"
    using v by (simp add: check_drift_decision_def Let_def)
  have R: "?R = ?P\<lparr>state := (state ?P)(task_branch \<mapsto> Success, task_skip \<mapsto> Skipped),
               xcoms := (xcoms ?P)((''check_drift_decision'', ''return_value'') \<mapsto>
                          VStr ''trigger_retrain''),
               log := log ?P @ [Started task_branch]\<rparr>"
    using after_branch[OF d] v cdd by simp
  have dag: "run_dag W = run_task W (run_task W ?R7 task_skip) task_end"
    unfolding run_dag_split by simp
  have s7: "state ?R7 task_skip = Some Skipped"
    using foldl_state_other[of task_skip "[task_retrain, task_evaluate, task_deploy, task_alert]" W ?R]
    by (simp add: R)
  then have skip_id: "run_task W ?R7 task_skip = ?R7"
    by (rule run_task_done)
  show "state (run_dag W) task_skip = Some Skipped"
    unfolding dag skip_id using s7 by (simp add: run_task_state_other)
  show "Started task_skip \<notin> set (log (run_dag W))"
  proof
    assume "Started task_skip \<in> set (log (run_dag W))"
    then have "Started task_skip \<in> set (log ?R7)"
      unfolding dag skip_id using run_task_log[of "Started task_skip" W ?R7 task_end] by auto
    then have "Started task_skip \<in> set (log ?R)"
      using foldl_log[of "Started task_skip" W ?R
          "[task_retrain, task_evaluate, task_deploy, task_alert]"] by auto
    then have "Started task_skip \<in> set (log ?P)"
      by (simp add: R)
    with run_prefix_log[of "Started task_skip" W "[task_collect, task_drift]"]
    show False by auto
  qed
  have r4: "?R4 = ?R\<lparr>state := (state ?R)(task_retrain \<mapsto> Success),
                      log := log ?R @ [Started task_retrain]\<rparr>"
    unfolding R
    by (simp add: run_task_def rule_verdict_def upstream_simps execute_def retrain_attempt
        push_all_def after_drift_state)
  have dag4: "run_dag W = foldl (run_task W) ?R4
                 [task_evaluate, task_deploy, task_alert, task_skip, task_end]"
    unfolding run_dag_split by simp
  show "state (run_dag W) task_retrain = Some Success"
    unfolding dag4
    using foldl_state_other[of task_retrain
        "[task_evaluate, task_deploy, task_alert, task_skip, task_end]" W ?R4]
    by (simp add: r4)
  have "Started task_retrain \<in> set (log ?R4)"
    by (simp add: r4)
  with foldl_log_mono[of ?R4 W "[task_evaluate, task_deploy, task_alert, task_skip, task_end]"]
  show "Started task_retrain \<in> set (log (run_dag W))"
    unfolding dag4 by auto
  have "xcoms (run_dag W) (''check_drift_decision'', ''return_value'')
          = xcoms ?R (''check_drift_decision'', ''return_value'')"
    unfolding run_dag_split by (rule foldl_xcoms_other) simp
  then show "xcoms (run_dag W) (''check_drift_decision'', ''return_value'')
           = Some (VStr ''trigger_retrain'')"
    by (simp add: R)
qed

lemma verdict_kept:
  "xcom_pull (xcoms (run_dag W)) ''detect_drift'' ''drift_detected''
     = xcom_pull (xcoms (run_prefix W [task_collect, task_drift])) ''detect_drift'' ''drift_detected''"
proof -
  let ?P = "run_prefix W [task_collect, task_drift]"
  have "xcoms (run_dag W) (''detect_drift'', ''drift_detected'')
          = xcoms (run_task W ?P task_branch) (''detect_drift'', ''drift_detected'')"
    unfolding run_dag_split by (rule foldl_xcoms_other) simp
  also have "\<dots> = xcoms ?P (''detect_drift'', ''drift_detected'')"
    by (rule run_task_xcoms_other) simp
  finally show ?thesis by (simp add: xcom_pull_def)
qed

lemma undecided_run:
  assumes "state (run_dag W) task_branch \<noteq> Some Success"
  shows "state (run_dag W) task_skip \<noteq> Some Success"
proof -
  let ?P = "run_prefix W [task_collect, task_drift]"
  let ?R = "run_task W ?P task_branch"
  let ?R7 = "foldl (run_task W) ?R [task_retrain, task_evaluate, task_deploy, task_alert]"
  have "state (run_dag W) task_branch = state ?R task_branch"
    unfolding run_dag_split by (rule foldl_state_other) simp_all
  with assms have nb: "state ?R task_branch \<noteq> Some Success" by simp
  from after_drift_state(1)[of W] obtain d where d: "state ?P task_drift = Some d"
    by auto
  from nb branch_step[OF after_drift_state(2) d, of W] have dn: "d \<noteq> Success"
    by (auto split: if_splits)
  with branch_step[OF after_drift_state(2) d, of W]
  have R: "?R = ?P\<lparr>state := (state ?P)(task_branch \<mapsto>
                      (if d = Skipped then Skipped else Upstream_failed))\<rparr>"
    by simp
  have b7: "state ?R7 task_branch = state ?R task_branch"
    by (rule foldl_state_other) simp_all
  have s7: "state ?R7 task_skip = state ?R task_skip"
    by (rule foldl_state_other) simp_all
  have "state ?R task_skip = None"
    unfolding R by (simp add: after_drift_state)
  with s7 have s7': "state ?R7 task_skip = None" by simp
  have b7': "state ?R7 task_branch = Some (if d = Skipped then Skipped else Upstream_failed)"
    unfolding b7 unfolding R by simp
  have "state (run_task W ?R7 task_skip) task_skip \<noteq> Some Success"
    using s7' b7' by (simp add: run_task_def rule_verdict_def upstream_simps)
  moreover have "run_dag W = run_task W (run_task W ?R7 task_skip) task_end"
    unfolding run_dag_split by simp
  ultimately show ?thesis
    by (simp add: run_task_state_other)
qed

subsection \<open>The branch decision\<close>

text \<open>
  C8. In every run in which \<open>check_drift_decision\<close> has run, the branch it returned is
  decided by the verdict that \<open>detect_drift\<close> pushed under \<open>drift_detected\<close> alone:
  \<open>trigger_retrain\<close> when the verdict is true, \<open>skip_retrain\<close> otherwise. On a true verdict
  \<open>trigger_retrain\<close> runs and \<open>skip_retrain\<close> is skipped and never started; otherwise
  \<open>skip_retrain\<close> runs and none of \<open>trigger_retrain\<close>, \<open>evaluate_new_model\<close>,
  \<open>deploy_to_staging\<close>, \<open>send_drift_alert\<close> is started: all four are skipped.
\<close>

theorem branch_follows_verdict:
  assumes "state (run_dag W) task_branch = Some Success"
  shows "xcoms (run_dag W) (''check_drift_decision'', ''return_value'')
           = Some (VStr (if truthy (xcom_pull (xcoms (run_dag W))
                                      ''detect_drift'' ''drift_detected'')
                         then ''trigger_retrain'' else ''skip_retrain'')) \<and>
         (if truthy (xcom_pull (xcoms (run_dag W)) ''detect_drift'' ''drift_detected'')
          then state (run_dag W) task_retrain = Some Success \<and>
               Started task_retrain \<in> set (log (run_dag W)) \<and>
               state (run_dag W) task_skip = Some Skipped \<and>
               Started task_skip \<notin> set (log (run_dag W))
          else state (run_dag W) task_skip = Some Success \<and>
               Started task_skip \<in> set (log (run_dag W)) \<and>
               (\<forall>t \<in> {task_retrain, task_evaluate, task_deploy, task_alert}.
                   state (run_dag W) t = Some Skipped \<and>
                   Started t \<notin> set (log (run_dag W))))"
proof (cases "truthy (xcom_pull (xcoms (run_dag W)) ''detect_drift'' ''drift_detected'')")
  case True
  then have v: "truthy (xcom_pull (xcoms (run_prefix W [task_collect, task_drift]))
                      ''detect_drift'' ''drift_detected'')"
    by (simp add: verdict_kept)
  from retrain_run[OF decided_run[OF assms] v] True show ?thesis
    by simp
next
  case False
  let ?P = "run_prefix W [task_collect, task_drift]"
  from False have v: "\<not> truthy (xcom_pull (xcoms ?P) ''detect_drift'' ''drift_detected'')"
    by (simp add: verdict_kept)
  note run = skip_run[OF decided_run[OF assms] v]
  have nolog: "Started t \<notin> set (log ?P)"
    if "t \<in> {task_retrain, task_evaluate, task_deploy, task_alert}" for t
    using run_prefix_log[of "Started t" W "[task_collect, task_drift]"] that by auto
  have a: "xcoms (run_dag W) (''check_drift_decision'', ''return_value'')
             = Some (VStr ''skip_retrain'')"
    unfolding run by simp
  have b: "state (run_dag W) task_skip = Some Success"
    unfolding run by simp
  have c: "Started task_skip \<in> set (log (run_dag W))"
    unfolding run by simp
  have d: "\<forall>t \<in> {task_retrain, task_evaluate, task_deploy, task_alert}.
             state (run_dag W) t = Some Skipped \<and> Started t \<notin> set (log (run_dag W))"
    unfolding run using nolog by auto
  from False a b c d show ?thesis by simp
qed

theorem branch_follows_verdict_witness:
  "state (run_dag ex_dag_drift) task_branch = Some Success \<and>
   truthy (xcom_pull (xcoms (run_dag ex_dag_drift)) ''detect_drift'' ''drift_detected'') \<and>
   xcoms (run_dag ex_dag_drift) (''check_drift_decision'', ''return_value'')
     = Some (VStr ''trigger_retrain'') \<and>
   state (run_dag ex_dag_drift) task_retrain = Some Success \<and>
   Started task_retrain \<in> set (log (run_dag ex_dag_drift)) \<and>
   state (run_dag ex_dag_drift) task_skip = Some Skipped \<and>
   Started task_skip \<notin> set (log (run_dag ex_dag_drift)) \<and>
   state (run_dag ex_dag_no_drift) task_branch = Some Success \<and>
   \<not> truthy (xcom_pull (xcoms (run_dag ex_dag_no_drift)) ''detect_drift'' ''drift_detected'') \<and>
   xcoms (run_dag ex_dag_no_drift) (''check_drift_decision'', ''return_value'')
     = Some (VStr ''skip_retrain'') \<and>
   state (run_dag ex_dag_no_drift) task_skip = Some Success \<and>
   Started task_skip \<in> set (log (run_dag ex_dag_no_drift)) \<and>
   state (run_dag ex_dag_no_drift) task_retrain = Some Skipped \<and>
   Started task_retrain \<notin> set (log (run_dag ex_dag_no_drift)) \<and>
   state (run_dag ex_dag_no_drift) task_alert = Some Skipped \<and>
   Started task_alert \<notin> set (log (run_dag ex_dag_no_drift))"
proof -
  have h1: "state (run_dag ex_dag_drift) task_branch = Some Success"
    by code_simp
  have v1: "truthy (xcom_pull (xcoms (run_dag ex_dag_drift)) ''detect_drift'' ''drift_detected'')"
    by code_simp
  have h2: "state (run_dag ex_dag_no_drift) task_branch = Some Success"
    by code_simp
  have v2: "\<not> truthy (xcom_pull (xcoms (run_dag ex_dag_no_drift))
                        ''detect_drift'' ''drift_detected'')"
    by code_simp
  from branch_follows_verdict[OF h1] v1 branch_follows_verdict[OF h2] v2 h1 h2
  show ?thesis by simp
qed

subsection \<open>The join\<close>

text \<open>
  C9. In every run in which \<open>skip_retrain\<close> succeeds, the retraining branch is never
  entered (its four tasks are skipped) and the run still reaches \<open>end\<close>, which
  succeeds: under \<open>none_failed_min_one_success\<close> a skipped upstream task does not count
  as a failed one, and the succeeded \<open>skip_retrain\<close> is enough. The rule is what lets
  \<open>end\<close> run: under the default rule \<open>all_success\<close> the same upstream states would skip
  it, and a failed upstream task in place of the skipped one would stop it.
\<close>

theorem skip_branch_reaches_end:
  assumes "state (run_dag W) task_skip = Some Success"
  shows "state (run_dag W) task_end = Some Success \<and>
         Started task_end \<in> set (log (run_dag W)) \<and>
         state (run_dag W) task_retrain = Some Skipped \<and>
         state (run_dag W) task_evaluate = Some Skipped \<and>
         state (run_dag W) task_deploy = Some Skipped \<and>
         state (run_dag W) task_alert = Some Skipped \<and>
         Started task_retrain \<notin> set (log (run_dag W)) \<and>
         rule_verdict (trigger_rule_of task_end) (map (state (run_dag W)) (upstream task_end))
           = None \<and>
         map (state (run_dag W)) (upstream task_end) = [Some Skipped, Some Success] \<and>
         rule_verdict all_success (map (state (run_dag W)) (upstream task_end))
           = Some Skipped \<and>
         rule_verdict (trigger_rule_of task_end) [Some Failed, Some Success]
           = Some Upstream_failed \<and>
         rule_verdict (trigger_rule_of task_end) [Some Skipped, Some Skipped]
           = Some Skipped"
proof -
  let ?P = "run_prefix W [task_collect, task_drift]"
  from assms undecided_run[of W] have b: "state (run_dag W) task_branch = Some Success"
    by blast
  note d = decided_run[OF b]
  have v: "\<not> truthy (xcom_pull (xcoms ?P) ''detect_drift'' ''drift_detected'')"
  proof
    assume "truthy (xcom_pull (xcoms ?P) ''detect_drift'' ''drift_detected'')"
    from retrain_run(1)[OF d this] assms show False by simp
  qed
  note run = skip_run[OF d v]
  have nolog: "Started task_retrain \<notin> set (log ?P)"
    using run_prefix_log[of "Started task_retrain" W "[task_collect, task_drift]"] by auto
  have "state (run_dag W) task_end = Some Success"
    and "Started task_end \<in> set (log (run_dag W))"
    and "state (run_dag W) task_retrain = Some Skipped"
    and "state (run_dag W) task_evaluate = Some Skipped"
    and "state (run_dag W) task_deploy = Some Skipped"
    and "state (run_dag W) task_alert = Some Skipped"
    and "Started task_retrain \<notin> set (log (run_dag W))"
    unfolding run using nolog by simp_all
  moreover have "rule_verdict (trigger_rule_of task_end)
                   (map (state (run_dag W)) (upstream task_end)) = None"
    unfolding run by (simp add: upstream_simps rule_verdict_def)
  moreover have "map (state (run_dag W)) (upstream task_end) = [Some Skipped, Some Success]"
    unfolding run by (simp add: upstream_simps)
  moreover have "rule_verdict all_success (map (state (run_dag W)) (upstream task_end))
                   = Some Skipped"
    unfolding run by (simp add: upstream_simps rule_verdict_def)
  moreover have "rule_verdict (trigger_rule_of task_end) [Some Failed, Some Success]
                   = Some Upstream_failed"
    by (simp add: rule_verdict_def)
  moreover have "rule_verdict (trigger_rule_of task_end) [Some Skipped, Some Skipped]
                   = Some Skipped"
    by (simp add: rule_verdict_def)
  ultimately show ?thesis by blast
qed

theorem skip_branch_reaches_end_witness:
  "state (run_dag ex_dag_no_drift) task_skip = Some Success \<and>
   state (run_dag ex_dag_no_drift) task_end = Some Success \<and>
   Started task_end \<in> set (log (run_dag ex_dag_no_drift)) \<and>
   state (run_dag ex_dag_no_drift) task_retrain = Some Skipped \<and>
   state (run_dag ex_dag_no_drift) task_evaluate = Some Skipped \<and>
   state (run_dag ex_dag_no_drift) task_deploy = Some Skipped \<and>
   state (run_dag ex_dag_no_drift) task_alert = Some Skipped \<and>
   Started task_retrain \<notin> set (log (run_dag ex_dag_no_drift)) \<and>
   rule_verdict (trigger_rule_of task_end)
     (map (state (run_dag ex_dag_no_drift)) (upstream task_end)) = None \<and>
   rule_verdict all_success
     (map (state (run_dag ex_dag_no_drift)) (upstream task_end)) = Some Skipped"
proof -
  have h: "state (run_dag ex_dag_no_drift) task_skip = Some Success"
    by code_simp
  from h skip_branch_reaches_end[OF h] show ?thesis
    by (intro conjI) blast+
qed

subsection \<open>A run without reference data\<close>

text \<open>
  C7, as the code has it. In every run in which \<open>collect_recent_data\<close> succeeds and the
  reference file does not exist, \<open>detect_drift\<close> returns \<open>False\<close> without calling
  \<open>detect_data_drift\<close> and without pushing a verdict; the branch function then reads a
  missing verdict and returns \<open>skip_retrain\<close>, so the run takes the same skip branch as
  a run with a no-drift verdict and \<open>end\<close> succeeds. The run records no separate status
  for the missing reference.
\<close>

theorem missing_reference_takes_skip_branch:
  assumes c: "state (run_dag W) task_collect = Some Success"
    and nr: "\<not> path_exists (W task_drift 1) (reference_path (W task_drift 1))"
  shows "Engine_called \<notin> set (log (run_dag W)) \<and>
         state (run_dag W) task_drift = Some Success \<and>
         xcoms (run_dag W) (''detect_drift'', ''return_value'') = Some (VBool False) \<and>
         xcoms (run_dag W) (''detect_drift'', ''drift_detected'') = None \<and>
         xcoms (run_dag W) (''check_drift_decision'', ''return_value'')
           = Some (VStr ''skip_retrain'') \<and>
         state (run_dag W) task_retrain = Some Skipped \<and>
         state (run_dag W) task_skip = Some Success \<and>
         Started task_skip \<in> set (log (run_dag W)) \<and>
         state (run_dag W) task_end = Some Success"
proof -
  let ?P1 = "run_prefix W [task_collect]"
  let ?P = "run_prefix W [task_collect, task_drift]"
  have P: "?P = run_task W ?P1 task_drift"
    using run_prefix_snoc[of W "[task_collect]" task_drift] by simp
  have "state (run_dag W) task_collect = state (run_task W ?P task_branch) task_collect"
    unfolding run_dag_split by (rule foldl_state_other) simp_all
  also have "\<dots> = state ?P task_collect"
    by (rule run_task_state_other) simp_all
  also have "\<dots> = state ?P1 task_collect"
    unfolding P by (rule run_task_state_other) simp_all
  finally have c1: "state ?P1 task_collect = Some Success"
    using c by simp
  have d1: "state ?P1 task_drift = None"
    by (simp add: run_prefix_state_None)
  have x1: "xcoms ?P1 (''detect_drift'', ''drift_detected'') = None"
    by (rule run_prefix_xcoms_None) simp
  have at: "attempt (W task_drift) task_drift (xcoms ?P1) (Suc 0) retries
              = ([Started task_drift], Inr (VBool False, []))"
    using nr by (simp add: retries_def detect_drift_def Let_def)
  have P': "?P = ?P1\<lparr>state := (state ?P1)(task_drift \<mapsto> Success),
                     xcoms := (xcoms ?P1)((''detect_drift'', ''return_value'') \<mapsto> VBool False),
                     log := log ?P1 @ [Started task_drift]\<rparr>"
    unfolding P using c1 d1
    by (simp add: run_task_def rule_verdict_def upstream_simps execute_def at push_all_def)
  have d: "state ?P task_drift = Some Success"
    unfolding P' by simp
  have v: "\<not> truthy (xcom_pull (xcoms ?P) ''detect_drift'' ''drift_detected'')"
    unfolding P' using x1 by (simp add: xcom_pull_def)
  note run = skip_run[OF d v]
  have nolog: "Engine_called \<notin> set (log ?P1)"
    using run_prefix_log[of Engine_called W "[task_collect]"] by auto
  have "Engine_called \<notin> set (log (run_dag W))"
    unfolding run unfolding P' using nolog by simp
  moreover have "state (run_dag W) task_drift = Some Success"
    unfolding run unfolding P' by simp
  moreover have "xcoms (run_dag W) (''detect_drift'', ''return_value'') = Some (VBool False)"
    unfolding run unfolding P' by simp
  moreover have "xcoms (run_dag W) (''detect_drift'', ''drift_detected'') = None"
    unfolding run unfolding P' using x1 by simp
  moreover have "xcoms (run_dag W) (''check_drift_decision'', ''return_value'')
           = Some (VStr ''skip_retrain'')"
    unfolding run by simp
  moreover have "state (run_dag W) task_retrain = Some Skipped"
    and "state (run_dag W) task_skip = Some Success"
    and "Started task_skip \<in> set (log (run_dag W))"
    and "state (run_dag W) task_end = Some Success"
    unfolding run by simp_all
  ultimately show ?thesis by blast
qed

theorem missing_reference_takes_skip_branch_witness:
  "state (run_dag ex_dag_no_reference) task_collect = Some Success \<and>
   \<not> path_exists (ex_dag_no_reference task_drift 1)
       (reference_path (ex_dag_no_reference task_drift 1)) \<and>
   Engine_called \<notin> set (log (run_dag ex_dag_no_reference)) \<and>
   state (run_dag ex_dag_no_reference) task_drift = Some Success \<and>
   xcoms (run_dag ex_dag_no_reference) (''detect_drift'', ''return_value'') = Some (VBool False) \<and>
   xcoms (run_dag ex_dag_no_reference) (''detect_drift'', ''drift_detected'') = None \<and>
   xcoms (run_dag ex_dag_no_reference) (''check_drift_decision'', ''return_value'')
     = Some (VStr ''skip_retrain'') \<and>
   state (run_dag ex_dag_no_reference) task_retrain = Some Skipped \<and>
   state (run_dag ex_dag_no_reference) task_skip = Some Success \<and>
   Started task_skip \<in> set (log (run_dag ex_dag_no_reference)) \<and>
   state (run_dag ex_dag_no_reference) task_end = Some Success"
proof -
  have h1: "state (run_dag ex_dag_no_reference) task_collect = Some Success"
    by code_simp
  have h2: "\<not> path_exists (ex_dag_no_reference task_drift 1)
               (reference_path (ex_dag_no_reference task_drift 1))"
    by (simp add: ex_dag_no_reference_def ex_world_def)
  from h1 h2 missing_reference_takes_skip_branch[OF h1 h2] show ?thesis
    by (intro conjI) blast+
qed

text \<open>
  C7 as stated fails: the run without the reference file is not distinct from the skip
  branch of a no-drift verdict. It executes \<open>skip_retrain\<close>, and every task ends in the
  same state as in the run whose verdict is no drift.
\<close>

theorem missing_reference_is_the_skip_branch:
  "\<not> path_exists (ex_dag_no_reference task_drift 1)
       (reference_path (ex_dag_no_reference task_drift 1)) \<and>
   state (run_dag ex_dag_no_reference) task_skip = Some Success \<and>
   Started task_skip \<in> set (log (run_dag ex_dag_no_reference)) \<and>
   xcoms (run_dag ex_dag_no_reference) (''check_drift_decision'', ''return_value'')
     = Some (VStr ''skip_retrain'') \<and>
   xcoms (run_dag ex_dag_no_drift) (''detect_drift'', ''drift_detected'') = Some (VBool False) \<and>
   xcoms (run_dag ex_dag_no_drift) (''check_drift_decision'', ''return_value'')
     = Some (VStr ''skip_retrain'') \<and>
   map (state (run_dag ex_dag_no_reference)) topological_order
     = map (state (run_dag ex_dag_no_drift)) topological_order \<and>
   map (state (run_dag ex_dag_no_reference)) topological_order
     = [Some Success, Some Success, Some Success, Some Skipped, Some Skipped, Some Skipped,
        Some Skipped, Some Success, Some Success]"
proof -
  have a: "\<not> path_exists (ex_dag_no_reference task_drift 1)
               (reference_path (ex_dag_no_reference task_drift 1))"
    by (simp add: ex_dag_no_reference_def ex_world_def)
  have b: "state (run_dag ex_dag_no_reference) task_skip = Some Success" by code_simp
  have c: "Started task_skip \<in> set (log (run_dag ex_dag_no_reference))" by code_simp
  have d: "xcoms (run_dag ex_dag_no_reference) (''check_drift_decision'', ''return_value'')
     = Some (VStr ''skip_retrain'')" by code_simp
  have e: "xcoms (run_dag ex_dag_no_drift) (''detect_drift'', ''drift_detected'')
     = Some (VBool False)" by code_simp
  have f: "xcoms (run_dag ex_dag_no_drift) (''check_drift_decision'', ''return_value'')
     = Some (VStr ''skip_retrain'')" by code_simp
  have g: "map (state (run_dag ex_dag_no_reference)) topological_order
     = [Some Success, Some Success, Some Success, Some Skipped, Some Skipped, Some Skipped,
        Some Skipped, Some Success, Some Success]" by code_simp
  have h: "map (state (run_dag ex_dag_no_drift)) topological_order
     = [Some Success, Some Success, Some Success, Some Skipped, Some Skipped, Some Skipped,
        Some Skipped, Some Success, Some Success]" by code_simp
  from a b c d e f g h show ?thesis by simp
qed

end
